theory Spec2Isabelle
  imports Complex_Main "HOL-Library.Log_Nat" "HOL-Library.Sublist"
begin

section \<open>JavaScript values\<close>

text \<open>
  The backend (\<^verbatim>\<open>src/backend/server.js\<close>) reads block records out of the JSON payloads of
  the rows of the table \<^verbatim>\<open>hype-debug\<close>. A payload is untyped: every function below
  inspects its shape at run time. The values are therefore the JSON values themselves.

  \<^item> A number is held by its integer value. Block numbers and counters are integers; the
    runtime keeps them as doubles, which hold every integer up to \<open>2^53\<close>, and the sums
    below are rounded as the runtime rounds them. A number with a fraction is outside the
    embedding.
  \<^item> An object is the list of its own properties; the first binding of a key is the
    property's value.
  \<^item> \<^verbatim>\<open>undefined\<close> is not a JSON value: reading a property gives a \<open>json option\<close>, and
    \<open>None\<close> is \<^verbatim>\<open>undefined\<close>.
\<close>

datatype json =
    JNull
  | JBool bool
  | JNum int
  | JStr string
  | JArr "json list"
  | JObj "(string \<times> json) list"

text \<open>
  What a statement can throw. \<open>Unmodelled\<close> is not an exception of the runtime: it marks
  the coercions of strings, arrays and objects to numbers (and the string concatenation
  that \<^verbatim>\<open>+=\<close> becomes on a string), which the embedding does not compute.
\<close>

datatype js_error = TypeError | SyntaxError | RangeError | Unmodelled

definition bindE :: "'e + 'a \<Rightarrow> ('a \<Rightarrow> 'e + 'b) \<Rightarrow> 'e + 'b" where
  "bindE m f = (case m of Inl e \<Rightarrow> Inl e | Inr v \<Rightarrow> f v)"

text \<open>
  \<^verbatim>\<open>v.name\<close> for the property names this program reads (\<^verbatim>\<open>blocks\<close>, \<^verbatim>\<open>blockNumber\<close>,
  \<^verbatim>\<open>hyperEVMTxns\<close>, ...): none of them is defined on a prototype, so only an object's own
  property answers. Reading a property of \<^verbatim>\<open>null\<close> throws a TypeError.
\<close>

fun getProp :: "json \<Rightarrow> string \<Rightarrow> js_error + json option" where
  "getProp JNull k = Inl TypeError"
| "getProp (JObj kvs) k = Inr (map_of kvs k)"
| "getProp v k = Inr None"

text \<open>Truthiness, as \<^verbatim>\<open>&&\<close>, \<^verbatim>\<open>||\<close> and \<^verbatim>\<open>if\<close> read a value.\<close>

fun truthy :: "json option \<Rightarrow> bool" where
  "truthy None = False"
| "truthy (Some JNull) = False"
| "truthy (Some (JBool b)) = b"
| "truthy (Some (JNum n)) = (n \<noteq> 0)"
| "truthy (Some (JStr s)) = (s \<noteq> [])"
| "truthy (Some (JArr xs)) = True"
| "truthy (Some (JObj kvs)) = True"

fun isArray :: "json option \<Rightarrow> bool" where
  "isArray (Some (JArr xs)) = True"
| "isArray v = False"

fun elements :: "json \<Rightarrow> json list" where
  "elements (JArr xs) = xs"
| "elements v = []"

section \<open>The record normalizer: \<^verbatim>\<open>parseBlockData\<close>\<close>

text \<open>
  \<^verbatim>\<open>
  function parseBlockData(dataString) {
    try {
      const data = typeof dataString === 'string' ? JSON.parse(dataString) : dataString;
      if (data.blocks && Array.isArray(data.blocks)) { return data.blocks; }
      if (Array.isArray(data)) { return data; }
      if (data.blockNumber !== undefined) { return [data]; }
      return [];
    } catch (error) {
      console.error('Error parsing block data:', error);
      return [];
    }
  }
  \<close>
  \<^verbatim>\<open>JSON.parse\<close> is the runtime's: it is the parameter \<open>jsonParse\<close>, and \<open>None\<close> is the
  SyntaxError it throws on a malformed text.
\<close>

definition decodePayload :: "(string \<Rightarrow> json option) \<Rightarrow> json \<Rightarrow> js_error + json" where
  "decodePayload jsonParse dataString =
     (case dataString of
        JStr s \<Rightarrow> (case jsonParse s of None \<Rightarrow> Inl SyntaxError | Some d \<Rightarrow> Inr d)
      | _ \<Rightarrow> Inr dataString)"

text \<open>The body of the \<^verbatim>\<open>try\<close> block: \<open>Inl\<close> is an exception on its way to the handler.\<close>

definition parseBlockData_try :: "(string \<Rightarrow> json option) \<Rightarrow> json \<Rightarrow> js_error + json list" where
  "parseBlockData_try jsonParse dataString =
     bindE (decodePayload jsonParse dataString) (\<lambda>data.
     bindE (getProp data ''blocks'') (\<lambda>blocks.
       if truthy blocks \<and> isArray blocks then Inr (elements (the blocks))
       else if isArray (Some data) then Inr (elements data)
       else bindE (getProp data ''blockNumber'') (\<lambda>blockNumber.
         if blockNumber \<noteq> None then Inr [data] else Inr [])))"

definition parseBlockData :: "(string \<Rightarrow> json option) \<Rightarrow> json \<Rightarrow> json list" where
  "parseBlockData jsonParse dataString =
     (case parseBlockData_try jsonParse dataString of Inl error \<Rightarrow> [] | Inr blocks \<Rightarrow> blocks)"

section \<open>Doubles\<close>

text \<open>
  Where the program adds, divides or multiplies numbers, the result is a double. A double
  is held by its exact rational value; an operation is the exact operation followed by
  rounding to the nearest double, ties to the even significand (53 bits). The exponent
  range is modelled where a text is read as a number (\<open>numberOfInteger\<close>) and not in the
  operations: a sum that reaches \<open>2^1024\<close>, an infinity of the runtime, is outside the
  embedding, and the properties of the sums are stated for counters up to \<open>2^53\<close>.
\<close>

definition roundHalfEven :: "rat \<Rightarrow> int" where
  "roundHalfEven y =
     (let f = \<lfloor>y\<rfloor>; r = y - of_int f in
      if r < 1 / 2 then f else if 1 / 2 < r then f + 1 else if even f then f else f + 1)"

text \<open>The exponent \<open>e\<close> of a non-zero \<open>x\<close>: \<open>2^e \<le> |x| < 2^(e+1)\<close>.\<close>

definition binade :: "rat \<Rightarrow> int" where
  "binade x =
     (let (p, q) = quotient_of \<bar>x\<bar>; e0 = bitlen p - bitlen q in
      if 2 powi e0 \<le> \<bar>x\<bar> then e0 else e0 - 1)"

definition roundDouble :: "rat \<Rightarrow> rat" where
  "roundDouble x =
     (if x = 0 then 0
      else let ulp = 2 powi (binade x - 52) in of_int (roundHalfEven (x / ulp)) * ulp)"

text \<open>
  A number with an integer value: the double nearest to the integer, which is an integer
  again. It is the integer itself up to \<open>2^53\<close>. The sum of two such numbers
  (\<^verbatim>\<open>acc += v\<close>, \<^verbatim>\<open>acc + v\<close>, \<^verbatim>\<open>n++\<close>) is the exact sum, rounded.
\<close>

definition roundInteger :: "int \<Rightarrow> int" where
  "roundInteger n = \<lfloor>roundDouble (of_int n)\<rfloor>"

definition numberSum :: "int \<Rightarrow> int \<Rightarrow> int" where
  "numberSum a b = roundInteger (a + b)"

definition numDivide :: "rat \<Rightarrow> rat \<Rightarrow> rat" where
  "numDivide a b = roundDouble (a / b)"

definition numTimes :: "rat \<Rightarrow> rat \<Rightarrow> rat" where
  "numTimes a b = roundDouble (a * b)"

section \<open>Numerals: \<^verbatim>\<open>BigInt\<close>, \<^verbatim>\<open>parseInt\<close> and \<^verbatim>\<open>toString\<close>\<close>

text \<open>
  Strings are ASCII; the white space of a numeric string is TAB, LF, VT, FF, CR and the
  space. A digit's value is read in radix up to 16.
\<close>

definition isWhiteSpace :: "char \<Rightarrow> bool" where
  "isWhiteSpace c = (of_char c \<in> {9, 10, 11, 12, 13, 32 :: int})"

definition digitValue :: "char \<Rightarrow> int option" where
  "digitValue c =
     (let n = (of_char c :: int) in
      if 48 \<le> n \<and> n \<le> 57 then Some (n - 48)
      else if 97 \<le> n \<and> n \<le> 102 then Some (n - 87)
      else if 65 \<le> n \<and> n \<le> 70 then Some (n - 55)
      else None)"

text \<open>The value of a string all of whose characters are digits of the radix.\<close>

fun digitsValue :: "int \<Rightarrow> int \<Rightarrow> string \<Rightarrow> int option" where
  "digitsValue radix acc [] = Some acc"
| "digitsValue radix acc (c # cs) =
     (case digitValue c of
        None \<Rightarrow> None
      | Some d \<Rightarrow> if d < radix then digitsValue radix (acc * radix + d) cs else None)"

definition radixLiteral :: "int \<Rightarrow> string \<Rightarrow> int option" where
  "radixLiteral radix s = (if s = [] then None else digitsValue radix 0 s)"

definition trimString :: "string \<Rightarrow> string" where
  "trimString s = rev (dropWhile isWhiteSpace (rev (dropWhile isWhiteSpace s)))"

text \<open>
  \<^verbatim>\<open>StringToBigInt\<close> of the language: white space around a literal, which is a decimal
  literal with an optional sign, or a literal in radix 16, 8 or 2 after \<^verbatim>\<open>0x\<close>, \<^verbatim>\<open>0o\<close>,
  \<^verbatim>\<open>0b\<close>; the empty text is zero. \<open>None\<close> is no literal (\<^verbatim>\<open>BigInt\<close> throws a SyntaxError).
\<close>

definition signedDecimal :: "string \<Rightarrow> int option" where
  "signedDecimal t =
     (case t of
        [] \<Rightarrow> None
      | c # ds \<Rightarrow>
          if c = CHR ''-'' then map_option uminus (radixLiteral 10 ds)
          else if c = CHR ''+'' then radixLiteral 10 ds
          else radixLiteral 10 t)"

definition StringToBigInt :: "string \<Rightarrow> int option" where
  "StringToBigInt s =
     (let t = trimString s in
      if t = [] then Some 0
      else case t of
        c1 # c2 # ds \<Rightarrow>
          if c1 = CHR ''0'' \<and> (c2 = CHR ''x'' \<or> c2 = CHR ''X'') then radixLiteral 16 ds
          else if c1 = CHR ''0'' \<and> (c2 = CHR ''o'' \<or> c2 = CHR ''O'') then radixLiteral 8 ds
          else if c1 = CHR ''0'' \<and> (c2 = CHR ''b'' \<or> c2 = CHR ''B'') then radixLiteral 2 ds
          else signedDecimal t
      | _ \<Rightarrow> signedDecimal t)"

text \<open>\<^verbatim>\<open>BigInt.prototype.toString()\<close>: the decimal digits, after a minus sign below zero.\<close>

definition digitChar :: "int \<Rightarrow> char" where
  "digitChar d = ''0123456789'' ! nat d"

function decimalDigits :: "int \<Rightarrow> string" where
  "decimalDigits n =
     (if n < 10 then [digitChar n] else decimalDigits (n div 10) @ [digitChar (n mod 10)])"
  by pat_completeness auto
termination
  by (relation "measure nat") auto

declare decimalDigits.simps [simp del]

definition bigintToString :: "int \<Rightarrow> string" where
  "bigintToString n = (if n < 0 then CHR ''-'' # decimalDigits (- n) else decimalDigits n)"

text \<open>
  A number of the runtime where it need not be finite: the result of \<^verbatim>\<open>parseInt\<close> and of
  a division.
\<close>

datatype jsnum = NaN | PosInfinity | NegInfinity | Fin int

text \<open>
  An integer as a number: rounded to the nearest double, and an infinity when that is
  \<open>2^1024\<close> or beyond.
\<close>

definition numberOfInteger :: "int \<Rightarrow> jsnum" where
  "numberOfInteger n =
     (let d = roundInteger n in
      if 2 ^ 1024 \<le> d then PosInfinity else if d \<le> - (2 ^ 1024) then NegInfinity else Fin d)"

text \<open>
  \<^verbatim>\<open>parseInt(s)\<close> with no radix: leading white space is skipped, a sign is read, \<^verbatim>\<open>0x\<close>
  selects radix 16, and the longest prefix of digits is the value, as a number; \<^verbatim>\<open>NaN\<close>
  when that prefix is empty. (Beyond 20 decimal digits the language lets an engine
  approximate the value; the engine rounds it correctly.)
\<close>

definition isRadixDigit :: "int \<Rightarrow> char \<Rightarrow> bool" where
  "isRadixDigit radix c = (case digitValue c of None \<Rightarrow> False | Some d \<Rightarrow> d < radix)"

definition parseDigits :: "int \<Rightarrow> string \<Rightarrow> int option" where
  "parseDigits radix s = radixLiteral radix (takeWhile (isRadixDigit radix) s)"

definition parseInt :: "string \<Rightarrow> jsnum" where
  "parseInt inputString =
     (let s = dropWhile isWhiteSpace inputString;
          negative = (s \<noteq> [] \<and> hd s = CHR ''-'');
          s1 = (if s \<noteq> [] \<and> (hd s = CHR ''+'' \<or> hd s = CHR ''-'') then tl s else s);
          hex = (case s1 of c1 # c2 # r \<Rightarrow> c1 = CHR ''0'' \<and> (c2 = CHR ''x'' \<or> c2 = CHR ''X'') | _ \<Rightarrow> False);
          z = (if hex then parseDigits 16 (drop 2 s1) else parseDigits 10 s1)
      in case z of
           None \<Rightarrow> NaN
         | Some n \<Rightarrow> numberOfInteger (if negative then - n else n))"

section \<open>Two decimals: \<^verbatim>\<open>toFixed(2)\<close>\<close>

text \<open>
  \<^verbatim>\<open>x.toFixed(2)\<close> for \<open>|x| < 10^21\<close>: the integer \<open>n\<close> for which \<open>n / 100\<close> is nearest to
  \<open>|x|\<close>, the larger one of two; its digits, padded to three, with the point before the
  last two; a minus sign when \<open>x < 0\<close>.
\<close>

definition fixed2 :: "int \<Rightarrow> string" where
  "fixed2 n =
     (let m = decimalDigits n;
          m' = (if length m \<le> 2 then replicate (3 - length m) CHR ''0'' @ m else m);
          k = length m'
      in take (k - 2) m' @ ''.'' @ drop (k - 2) m')"

definition toFixed2 :: "rat \<Rightarrow> string" where
  "toFixed2 x = (if x < 0 then ''-'' else '''') @ fixed2 \<lfloor>\<bar>x\<bar> * 100 + 1 / 2\<rfloor>"

section \<open>The aggregator: \<^verbatim>\<open>GET /api/stats\<close>\<close>

text \<open>
  \<^verbatim>\<open>
  let totalTransactions = 0;
  let totalCrossLayerCalls = 0;
  let totalGasUsed = BigInt(0);
  let totalHyperCoreActions = 0;
  let processedBlocks = 0;
  for (const row of blocksResult.rows) {
    const blocks = parseBlockData(row.data);
    for (const block of blocks) {
      if (block.hyperEVMTxns > 0) {
        processedBlocks++;
        totalTransactions += block.hyperEVMTxns || 0;
        totalCrossLayerCalls += block.crossLayerCalls || 0;
        totalHyperCoreActions += block.hyperCoreActions || 0;
        totalGasUsed += BigInt(block.gasUsed || 0);
      }
    }
  }
  \<close>
  The operators, on the values a property read can give.
\<close>

text \<open>\<^verbatim>\<open>v > 0\<close>: \<^verbatim>\<open>undefined\<close> is NaN and \<^verbatim>\<open>null\<close> is zero, so both give false.\<close>

fun gtZero :: "json option \<Rightarrow> js_error + bool" where
  "gtZero None = Inr False"
| "gtZero (Some JNull) = Inr False"
| "gtZero (Some (JBool b)) = Inr b"
| "gtZero (Some (JNum n)) = Inr (0 < n)"
| "gtZero (Some (JStr s)) = Inl Unmodelled"
| "gtZero (Some (JArr xs)) = Inl Unmodelled"
| "gtZero (Some (JObj kvs)) = Inl Unmodelled"

text \<open>\<^verbatim>\<open>v || 0\<close>\<close>

definition orZero :: "json option \<Rightarrow> json" where
  "orZero v = (if truthy v then the v else JNum 0)"

text \<open>
  \<^verbatim>\<open>acc += v\<close> for a number \<open>acc\<close>: the sum of two numbers is a double. On a string, an
  array or an object it concatenates.
\<close>

fun addNumber :: "int \<Rightarrow> json \<Rightarrow> js_error + int" where
  "addNumber acc (JNum n) = Inr (numberSum acc n)"
| "addNumber acc (JBool b) = Inr (numberSum acc (if b then 1 else 0))"
| "addNumber acc JNull = Inr (numberSum acc 0)"
| "addNumber acc (JStr s) = Inl Unmodelled"
| "addNumber acc (JArr xs) = Inl Unmodelled"
| "addNumber acc (JObj kvs) = Inl Unmodelled"

text \<open>\<^verbatim>\<open>BigInt(v)\<close>: a number with an integer value converts exactly, a string is read as a literal.\<close>

fun toBigInt :: "json \<Rightarrow> js_error + int" where
  "toBigInt (JNum n) = Inr n"
| "toBigInt (JBool b) = Inr (if b then 1 else 0)"
| "toBigInt (JStr s) = (case StringToBigInt s of None \<Rightarrow> Inl SyntaxError | Some n \<Rightarrow> Inr n)"
| "toBigInt JNull = Inl TypeError"
| "toBigInt (JArr xs) = Inl Unmodelled"
| "toBigInt (JObj kvs) = Inl Unmodelled"

record totals =
  totalTransactions :: int
  totalCrossLayerCalls :: int
  totalGasUsed :: int
  totalHyperCoreActions :: int
  processedBlocks :: int

definition zeroTotals :: totals where
  "zeroTotals = \<lparr>totalTransactions = 0, totalCrossLayerCalls = 0, totalGasUsed = 0,
     totalHyperCoreActions = 0, processedBlocks = 0\<rparr>"

text \<open>The body of the inner loop, for one \<open>block\<close>.\<close>

definition statsBlock :: "totals \<Rightarrow> json \<Rightarrow> js_error + totals" where
  "statsBlock acc block =
     bindE (getProp block ''hyperEVMTxns'') (\<lambda>txns.
     bindE (gtZero txns) (\<lambda>active.
       if active then
         bindE (addNumber (totalTransactions acc) (orZero txns)) (\<lambda>tt.
         bindE (getProp block ''crossLayerCalls'') (\<lambda>calls.
         bindE (addNumber (totalCrossLayerCalls acc) (orZero calls)) (\<lambda>tc.
         bindE (getProp block ''hyperCoreActions'') (\<lambda>actions.
         bindE (addNumber (totalHyperCoreActions acc) (orZero actions)) (\<lambda>th.
         bindE (getProp block ''gasUsed'') (\<lambda>gas.
         bindE (toBigInt (orZero gas)) (\<lambda>g.
           Inr \<lparr>totalTransactions = tt, totalCrossLayerCalls = tc,
                totalGasUsed = totalGasUsed acc + g, totalHyperCoreActions = th,
                processedBlocks = numberSum (processedBlocks acc) 1\<rparr>)))))))
       else Inr acc))"

fun statsBlocks :: "totals \<Rightarrow> json list \<Rightarrow> js_error + totals" where
  "statsBlocks acc [] = Inr acc"
| "statsBlocks acc (block # blocks) =
     bindE (statsBlock acc block) (\<lambda>acc'. statsBlocks acc' blocks)"

text \<open>The outer loop; a row is its \<^verbatim>\<open>data\<close> column.\<close>

fun statsRows :: "(string \<Rightarrow> json option) \<Rightarrow> totals \<Rightarrow> json list \<Rightarrow> js_error + totals" where
  "statsRows jsonParse acc [] = Inr acc"
| "statsRows jsonParse acc (row # rows) =
     bindE (statsBlocks acc (parseBlockData jsonParse row)) (\<lambda>acc'. statsRows jsonParse acc' rows)"

text \<open>
  \<^verbatim>\<open>
  crossLayerPercentage: totalTransactions > 0 ?
    ((totalCrossLayerCalls / totalTransactions) * 100).toFixed(2) : '0'
  \<close>
\<close>

definition crossLayerPercentage :: "int \<Rightarrow> int \<Rightarrow> string" where
  "crossLayerPercentage totalCrossLayerCalls' totalTransactions' =
     (if totalTransactions' > 0
      then toFixed2 (numTimes (numDivide (of_int totalCrossLayerCalls') (of_int totalTransactions')) 100)
      else ''0'')"

text \<open>
  The handler. Its two queries are the storage collaborator's: \<open>metaQuery\<close> is the
  outcome of the count/min/max query (the three columns of its one row, as the text the
  driver hands over, \<open>None\<close> for SQL NULL), \<open>blocksQuery\<close> the outcome of the query for
  every row's \<^verbatim>\<open>data\<close>; \<open>Inl\<close> is a rejected query. A reply is the JSON sent with status
  200, or the \<^verbatim>\<open>error\<close> text sent with status 404 or 500.
\<close>

datatype reply = Json200 json | Error404 string | Error500 string

record metaRow =
  total_records :: "string option"
  first_block :: "string option"
  last_block :: "string option"

text \<open>\<^verbatim>\<open>parseInt(v)\<close> of a column, and a number in a JSON body (NaN and the infinities print as \<^verbatim>\<open>null\<close>).\<close>

definition parseIntColumn :: "string option \<Rightarrow> jsnum" where
  "parseIntColumn v = (case v of None \<Rightarrow> parseInt ''null'' | Some s \<Rightarrow> parseInt s)"

fun jsonNumber :: "jsnum \<Rightarrow> json" where
  "jsonNumber (Fin n) = JNum n"
| "jsonNumber v = JNull"

definition statsBody :: "metaRow \<Rightarrow> totals \<Rightarrow> json" where
  "statsBody stats t =
     JObj [(''totalRecords'', jsonNumber (parseIntColumn (total_records stats))),
           (''firstBlock'', jsonNumber (parseIntColumn (first_block stats))),
           (''lastBlock'', jsonNumber (parseIntColumn (last_block stats))),
           (''totalTransactions'', JNum (totalTransactions t)),
           (''totalCrossLayerCalls'', JNum (totalCrossLayerCalls t)),
           (''totalHyperCoreActions'', JNum (totalHyperCoreActions t)),
           (''totalGasUsed'', JStr (bigintToString (totalGasUsed t))),
           (''processedBlocks'', JNum (processedBlocks t)),
           (''crossLayerPercentage'',
              JStr (crossLayerPercentage (totalCrossLayerCalls t) (totalTransactions t)))]"

definition api_stats ::
  "(string \<Rightarrow> json option) \<Rightarrow> js_error + metaRow \<Rightarrow> js_error + json list \<Rightarrow> reply" where
  "api_stats jsonParse metaQuery blocksQuery =
     (case metaQuery of
        Inl error \<Rightarrow> Error500 ''Stats error''
      | Inr stats \<Rightarrow>
          (case blocksQuery of
             Inl error \<Rightarrow> Error500 ''Stats error''
           | Inr rows \<Rightarrow>
               (case statsRows jsonParse zeroTotals rows of
                  Inl error \<Rightarrow> Error500 ''Stats error''
                | Inr t \<Rightarrow> Json200 (statsBody stats t))))"

text \<open>
  The claims about the aggregator read a record by the specification's words: a numeric
  field is its number, zero when missing, and \<^verbatim>\<open>gasUsed\<close> is the integer its text or
  number denotes. \<open>blockRecord\<close> are the records of that shape: an object whose three
  counters are numbers or missing and whose \<^verbatim>\<open>gasUsed\<close> is an integer literal, a number or
  missing.
\<close>

definition numberField :: "json \<Rightarrow> string \<Rightarrow> int" where
  "numberField b k = (case getProp b k of Inr (Some (JNum n)) \<Rightarrow> n | _ \<Rightarrow> 0)"

definition gasField :: "json \<Rightarrow> int" where
  "gasField b =
     (case getProp b ''gasUsed'' of
        Inr (Some (JNum n)) \<Rightarrow> n
      | Inr (Some (JStr s)) \<Rightarrow> (case StringToBigInt s of Some n \<Rightarrow> n | None \<Rightarrow> 0)
      | _ \<Rightarrow> 0)"

fun plainNumber :: "json option \<Rightarrow> bool" where
  "plainNumber None = True"
| "plainNumber (Some (JNum n)) = True"
| "plainNumber v = False"

fun plainGas :: "json option \<Rightarrow> bool" where
  "plainGas None = True"
| "plainGas (Some (JNum n)) = True"
| "plainGas (Some (JStr s)) = (StringToBigInt s \<noteq> None)"
| "plainGas v = False"

fun blockRecord :: "json \<Rightarrow> bool" where
  "blockRecord (JObj kvs) =
     (plainNumber (map_of kvs ''hyperEVMTxns'') \<and> plainNumber (map_of kvs ''crossLayerCalls'')
      \<and> plainNumber (map_of kvs ''hyperCoreActions'') \<and> plainGas (map_of kvs ''gasUsed''))"
| "blockRecord v = False"

definition activeRecord :: "json \<Rightarrow> bool" where
  "activeRecord b = (0 < numberField b ''hyperEVMTxns'')"

text \<open>
  The counters of a list of records stay in the range where a double holds every integer:
  the magnitudes of each counter add up to at most \<open>2^53\<close>, and so does the number of
  records. Every sum the program forms over such records is exact.
\<close>

definition safeCounter :: "string \<Rightarrow> json list \<Rightarrow> bool" where
  "safeCounter k bs = ((\<Sum>b\<leftarrow>bs. \<bar>numberField b k\<bar>) \<le> 2 ^ 53)"

definition safeTotals :: "json list \<Rightarrow> bool" where
  "safeTotals bs =
     (safeCounter ''hyperEVMTxns'' bs \<and> safeCounter ''crossLayerCalls'' bs
      \<and> safeCounter ''hyperCoreActions'' bs \<and> int (length bs) \<le> 2 ^ 53)"

text \<open>A property of the JSON body of a reply; \<open>None\<close> when the reply is an error.\<close>

definition replyField :: "reply \<Rightarrow> string \<Rightarrow> json option" where
  "replyField r k = (case r of Json200 (JObj kvs) \<Rightarrow> map_of kvs k | _ \<Rightarrow> None)"

text \<open>The decoder where no payload is a text to decode: it accepts nothing.\<close>

definition undecodable :: "string \<Rightarrow> json option" where
  "undecodable s = None"

section \<open>The merger: \<^verbatim>\<open>GET /api/blocks/recent\<close>\<close>

text \<open>
  \<^verbatim>\<open>
  const result = await pool.query(
    'SELECT * FROM "hype-debug" ORDER BY to_block_number DESC LIMIT 10');
  const allBlocks = [];
  for (const row of result.rows) {
    const blocks = parseBlockData(row.data);
    allBlocks.push(...blocks);
  }
  const sortedBlocks = allBlocks
    .sort((a, b) => b.blockNumber - a.blockNumber)
    .slice(0, 20);
  res.json(sortedBlocks);
  \<close>
\<close>

definition flattenRows :: "(string \<Rightarrow> json option) \<Rightarrow> json list \<Rightarrow> json list" where
  "flattenRows jsonParse rows = foldl (\<lambda>allBlocks row. allBlocks @ parseBlockData jsonParse row) [] rows"

text \<open>
  The operand \<^verbatim>\<open>x.blockNumber\<close> of the comparator, where it is a number. On any other
  record the difference is NaN or a coercion, and the order of the result is the
  engine's choice.
\<close>

fun sortKey :: "json \<Rightarrow> int option" where
  "sortKey (JObj kvs) = (case map_of kvs ''blockNumber'' of Some (JNum n) \<Rightarrow> Some n | _ \<Rightarrow> None)"
| "sortKey v = None"

text \<open>
  \<^verbatim>\<open>allBlocks.sort((a, b) => b.blockNumber - a.blockNumber)\<close>. The sort of the language is
  stable; the comparator puts the larger number first. With fewer than two elements the
  comparator is never called; otherwise every element is compared, and reading a property
  of \<^verbatim>\<open>null\<close> throws.
\<close>

definition sortByBlockNumber :: "json list \<Rightarrow> js_error + json list" where
  "sortByBlockNumber allBlocks =
     (if length allBlocks < 2 then Inr allBlocks
      else if JNull \<in> set allBlocks then Inl TypeError
      else if list_all (\<lambda>b. sortKey b \<noteq> None) allBlocks
        then Inr (sort_key (\<lambda>b. - the (sortKey b)) allBlocks)
      else Inl Unmodelled)"

text \<open>\<open>recentQuery\<close> is the outcome of the storage query: the \<^verbatim>\<open>data\<close> of its rows, in its order.\<close>

definition api_blocks_recent :: "(string \<Rightarrow> json option) \<Rightarrow> js_error + json list \<Rightarrow> reply" where
  "api_blocks_recent jsonParse recentQuery =
     (case recentQuery of
        Inl error \<Rightarrow> Error500 ''Database error''
      | Inr rows \<Rightarrow>
          (case sortByBlockNumber (flattenRows jsonParse rows) of
             Inl error \<Rightarrow> Error500 ''Database error''
           | Inr sortedBlocks \<Rightarrow> Json200 (JArr (take 20 sortedBlocks))))"

text \<open>The block number of a record whose \<^verbatim>\<open>blockNumber\<close> is a number.\<close>

definition blockNumberOf :: "json \<Rightarrow> int" where
  "blockNumberOf b = the (sortKey b)"

section \<open>The price series: \<^verbatim>\<open>getHypePrice\<close> and the history window\<close>

text \<open>
  \<^verbatim>\<open>
  async function getHypePrice() {
    try {
      const encodedIndex = ethers.utils.defaultAbiCoder.encode(['uint256'], [107]);
      const result = await provider.call({ to: PRECOMPILES.spotPx, data: encodedIndex });
      const priceRaw = ethers.BigNumber.from(result);
      const price = priceRaw.toNumber() / 1000000;
      console.log('HYPE spot price from precompile:', price);
      return price;
    } catch (error) {
      console.error('Error fetching HYPE price from precompile:', error.message);
      return 48.0;
    }
  }
  \<close>
  The call to the precompile is the chain collaborator's: \<open>callOutcome\<close> is how it
  ended, with the returned text or with the error the provider throws (no answer, or a
  revert). \<^verbatim>\<open>BigNumber.from\<close> and \<^verbatim>\<open>toNumber\<close> are the ethers library's (version 5): the
  first accepts hexadecimal digits after \<^verbatim>\<open>0x\<close> or decimal digits, with an optional minus
  sign, and throws on any other text, the second throws when the value does not fit in 53 bits.
\<close>

datatype ethers_error = NetworkError | CallException | InvalidArgument | NumericFault

definition BigNumber_from :: "string \<Rightarrow> ethers_error + int" where
  "BigNumber_from v =
     (let negative = (v \<noteq> [] \<and> hd v = CHR ''-'');
          digits = (if negative then tl v else v);
          hex = (case digits of
                   c1 # c2 # ds \<Rightarrow>
                     if c1 = CHR ''0'' \<and> c2 = CHR ''x'' then radixLiteral 16 ds else None
                 | _ \<Rightarrow> None);
          magnitude = (case hex of Some n \<Rightarrow> Some n | None \<Rightarrow> radixLiteral 10 digits)
      in case magnitude of
           None \<Rightarrow> Inl InvalidArgument
         | Some n \<Rightarrow> Inr (if negative then - n else n))"

definition BigNumber_toNumber :: "int \<Rightarrow> ethers_error + int" where
  "BigNumber_toNumber n = (if \<bar>n\<bar> < 2 ^ 53 then Inr n else Inl NumericFault)"

definition fallbackPrice :: rat where
  "fallbackPrice = 48"

definition getHypePrice_try :: "ethers_error + string \<Rightarrow> ethers_error + rat" where
  "getHypePrice_try callOutcome =
     bindE callOutcome (\<lambda>result.
     bindE (BigNumber_from result) (\<lambda>priceRaw.
     bindE (BigNumber_toNumber priceRaw) (\<lambda>n.
       Inr (numDivide (of_int n) 1000000))))"

definition getHypePrice :: "ethers_error + string \<Rightarrow> rat" where
  "getHypePrice callOutcome =
     (case getHypePrice_try callOutcome of Inl error \<Rightarrow> fallbackPrice | Inr price \<Rightarrow> price)"

text \<open>
  The oracle call fails: the provider throws, or the returned text does not decode to a
  number.
\<close>

definition oracleFails :: "ethers_error + string \<Rightarrow> bool" where
  "oracleFails callOutcome =
     (case callOutcome of
        Inl error \<Rightarrow> True
      | Inr result \<Rightarrow>
          (case BigNumber_from result of
             Inl error \<Rightarrow> True
           | Inr priceRaw \<Rightarrow> isl (BigNumber_toNumber priceRaw)))"

text \<open>
  The frontend (\<^verbatim>\<open>src/frontend/src/App.tsx\<close>, \<^verbatim>\<open>fetchHypeData\<close>) keeps the history:
  \<^verbatim>\<open>
  setHypePriceHistory(prev => [...prev, {
    time: format(new Date(), 'HH:mm:ss'),
    price: response.data.hypePrice
  }].slice(-30));
  \<close>
  \<^verbatim>\<open>slice(-30)\<close> starts at \<open>max (length - 30) 0\<close>, which is the subtraction of \<open>nat\<close>.
\<close>

record pricePoint =
  time :: string
  price :: rat

definition appendSample :: "pricePoint list \<Rightarrow> string \<Rightarrow> rat \<Rightarrow> pricePoint list" where
  "appendSample prev timestamp hypePrice =
     (let series = prev @ [\<lparr>time = timestamp, price = hypePrice\<rparr>]
      in drop (length series - 30) series)"

text \<open>
  The specification's words for the window: the 30 most recent samples of a series, and
  the history after a run of fetches that complete in the order given.
\<close>

definition lastSamples :: "pricePoint list \<Rightarrow> pricePoint list" where
  "lastSamples series = drop (length series - 30) series"

fun appendAll :: "pricePoint list \<Rightarrow> (string \<times> rat) list \<Rightarrow> pricePoint list" where
  "appendAll series [] = series"
| "appendAll series ((t, p) # samples) = appendAll (appendSample series t p) samples"

section \<open>The point lookup: \<^verbatim>\<open>GET /api/blocks/:blockNumber\<close>\<close>

text \<open>
  \<^verbatim>\<open>
  const { blockNumber } = req.params;
  const blockNum = parseInt(blockNumber);
  const result = await pool.query(
    'SELECT * FROM "hype-debug" WHERE from_block_number <= $1 AND to_block_number >= $1 LIMIT 1',
    [blockNum]);
  if (result.rows.length > 0) {
    const blocks = parseBlockData(result.rows[0].data);
    const block = blocks.find(b => b.blockNumber === blockNum);
    if (block) {
      res.json(block);
    } else {
      try {
        const blockchainBlock = await provider.getBlock(blockNum);
        if (blockchainBlock) {
          res.json({
            blockNumber: blockchainBlock.number,
            timestamp: blockchainBlock.timestamp,
            hyperCoreActions: 0,
            hyperEVMTxns: blockchainBlock.transactions.length,
            crossLayerCalls: 0,
            gasUsed: blockchainBlock.gasUsed.toString(),
            uniqueUsers: [],
            metrics: {
              avgGasPerTx: blockchainBlock.transactions.length > 0 ?
                Math.floor(parseInt(blockchainBlock.gasUsed.toString()) / blockchainBlock.transactions.length) : 0,
              crossLayerRatio: '0',
              uniqueUserCount: 0
            }
          });
        } else { res.status(404).json({ error: 'Block not found' }); }
      } catch (error) { res.status(404).json({ error: 'Block not found' }); }
    }
  } else { res.status(404).json({ error: 'Block not found in database' }); }
  // outer catch: res.status(500).json({ error: 'Database error', message: error.message });
  \<close>
  The two collaborators are parameters: \<open>poolQuery\<close> answers the storage query for a
  number with the \<^verbatim>\<open>data\<close> of the rows found (or rejects), \<open>getBlock\<close> answers the chain
  read with a block, with nothing, or rejects. The handler's result is its reply together
  with the collaborator calls it made, in order.
\<close>

datatype call = StorageQuery jsnum | ChainGetBlock jsnum

text \<open>A block as the chain provider returns it; \<^verbatim>\<open>gasUsed\<close> is a BigNumber.\<close>

record chainBlock =
  number :: int
  timestamp :: int
  transactions :: "string list"
  gasUsed :: int

text \<open>\<^verbatim>\<open>v === blockNum\<close> for a property \<open>v\<close> and a number: NaN equals nothing.\<close>

fun strictEquals :: "json option \<Rightarrow> jsnum \<Rightarrow> bool" where
  "strictEquals (Some (JNum n)) (Fin m) = (n = m)"
| "strictEquals v x = False"

text \<open>\<^verbatim>\<open>blocks.find(b => b.blockNumber === blockNum)\<close>\<close>

fun findBlock :: "json list \<Rightarrow> jsnum \<Rightarrow> js_error + json option" where
  "findBlock [] blockNum = Inr None"
| "findBlock (b # bs) blockNum =
     bindE (getProp b ''blockNumber'') (\<lambda>v.
       if strictEquals v blockNum then Inr (Some b) else findBlock bs blockNum)"

text \<open>
  \<^verbatim>\<open>Math.floor(a / b)\<close> for a number \<open>a\<close> and an array length \<open>b\<close>. A division by zero
  does not throw: it gives an infinity or NaN. Otherwise the quotient is a double, and its
  floor is exact.
\<close>

fun floorDivide :: "jsnum \<Rightarrow> int \<Rightarrow> jsnum" where
  "floorDivide (Fin a) b =
     (if b = 0 then (if 0 < a then PosInfinity else if a < 0 then NegInfinity else NaN)
      else Fin \<lfloor>numDivide (of_int a) (of_int b)\<rfloor>)"
| "floorDivide NaN b = NaN"
| "floorDivide PosInfinity b = (if 0 \<le> b then PosInfinity else NegInfinity)"
| "floorDivide NegInfinity b = (if 0 \<le> b then NegInfinity else PosInfinity)"

definition avgGasPerTx :: "chainBlock \<Rightarrow> jsnum" where
  "avgGasPerTx blockchainBlock =
     (if length (transactions blockchainBlock) > 0
      then floorDivide (parseInt (bigintToString (gasUsed blockchainBlock)))
             (int (length (transactions blockchainBlock)))
      else Fin 0)"

definition chainRecord :: "chainBlock \<Rightarrow> json" where
  "chainRecord blockchainBlock =
     JObj [(''blockNumber'', JNum (number blockchainBlock)),
           (''timestamp'', JNum (timestamp blockchainBlock)),
           (''hyperCoreActions'', JNum 0),
           (''hyperEVMTxns'', JNum (int (length (transactions blockchainBlock)))),
           (''crossLayerCalls'', JNum 0),
           (''gasUsed'', JStr (bigintToString (gasUsed blockchainBlock))),
           (''uniqueUsers'', JArr []),
           (''metrics'',
              JObj [(''avgGasPerTx'', jsonNumber (avgGasPerTx blockchainBlock)),
                    (''crossLayerRatio'', JStr ''0''),
                    (''uniqueUserCount'', JNum 0)])]"

definition chainFallback :: "(jsnum \<Rightarrow> js_error + chainBlock option) \<Rightarrow> jsnum \<Rightarrow> reply" where
  "chainFallback getBlock blockNum =
     (case getBlock blockNum of
        Inl error \<Rightarrow> Error404 ''Block not found''
      | Inr None \<Rightarrow> Error404 ''Block not found''
      | Inr (Some blockchainBlock) \<Rightarrow> Json200 (chainRecord blockchainBlock))"

definition api_block ::
  "(string \<Rightarrow> json option) \<Rightarrow> (jsnum \<Rightarrow> js_error + json list) \<Rightarrow>
   (jsnum \<Rightarrow> js_error + chainBlock option) \<Rightarrow> string \<Rightarrow> call list \<times> reply" where
  "api_block jsonParse poolQuery getBlock blockNumber =
     (let blockNum = parseInt blockNumber in
      case poolQuery blockNum of
        Inl error \<Rightarrow> ([StorageQuery blockNum], Error500 ''Database error'')
      | Inr [] \<Rightarrow> ([StorageQuery blockNum], Error404 ''Block not found in database'')
      | Inr (row # rows) \<Rightarrow>
          (case findBlock (parseBlockData jsonParse row) blockNum of
             Inl error \<Rightarrow> ([StorageQuery blockNum], Error500 ''Database error'')
           | Inr found \<Rightarrow>
               if truthy found then ([StorageQuery blockNum], Json200 (the found))
               else ([StorageQuery blockNum, ChainGetBlock blockNum],
                     chainFallback getBlock blockNum)))"

section \<open>The frontend: search and the summary without \<^verbatim>\<open>/api/stats\<close>\<close>

text \<open>
  \<^verbatim>\<open>
  const searchBlock = async () => {
    if (!blockSearch) { setSearchResult(null); return; }
    setLoading(true);
    try {
      const blockNum = parseInt(blockSearch);
      const found = recentBlocks.find(b => b.blockNumber === blockNum);
      if (found) {
        setSearchResult(found);
      } else {
        try {
          const response = await axios.get(`${API_URL}/api/blocks/${blockNum}`);
          setSearchResult(response.data);
        } catch (err: any) {
          if (err.response?.status === 404) { alert('Block not found'); }
          else { alert('Error searching block'); }
        }
      }
    } catch (error) {
      console.error('Error searching block:', error);
      alert('Invalid block number');
    } finally { setLoading(false); }
  };
  \<close>
  \<open>backend\<close> answers the request for the path segment written into the URL: the reply, or
  nothing when the server cannot be reached. The result is what the user sees and the
  path segments requested.
\<close>

datatype shown = Cleared | Result json | Alert string

text \<open>
  A number written into a template string: every digit of an integer below \<open>10^21\<close> (from
  there the runtime writes an exponent).
\<close>

fun numberToString :: "jsnum \<Rightarrow> string" where
  "numberToString (Fin n) = bigintToString n"
| "numberToString NaN = ''NaN''"
| "numberToString PosInfinity = ''Infinity''"
| "numberToString NegInfinity = ''-Infinity''"

definition searchBlock :: "(string \<Rightarrow> reply option) \<Rightarrow> json list \<Rightarrow> string \<Rightarrow> string list \<times> shown" where
  "searchBlock backend recentBlocks blockSearch =
     (if blockSearch = [] then ([], Cleared)
      else let blockNum = parseInt blockSearch in
        case findBlock recentBlocks blockNum of
          Inl error \<Rightarrow> ([], Alert ''Invalid block number'')
        | Inr found \<Rightarrow>
            if truthy found then ([], Result (the found))
            else ([numberToString blockNum],
                  case backend (numberToString blockNum) of
                    Some (Json200 body) \<Rightarrow> Result body
                  | Some (Error404 e) \<Rightarrow> Alert ''Block not found''
                  | Some (Error500 e) \<Rightarrow> Alert ''Error searching block''
                  | None \<Rightarrow> Alert ''Error searching block''))"

text \<open>
  \<^verbatim>\<open>
  const totalStats = stats || recentBlocks.reduce((acc, block) => ({
    totalRecords: recentBlocks.length,
    firstBlock: Math.min(acc.firstBlock || Infinity, block.blockNumber),
    lastBlock: Math.max(acc.lastBlock || 0, block.blockNumber),
    totalTransactions: acc.totalTransactions + block.hyperEVMTxns,
    totalCrossLayerCalls: acc.totalCrossLayerCalls + block.crossLayerCalls,
    totalGasUsed: (BigInt(acc.totalGasUsed || '0') + BigInt(block.gasUsed)).toString()
  }), { totalRecords: 0, firstBlock: 0, lastBlock: 0, totalTransactions: 0,
        totalCrossLayerCalls: 0, totalGasUsed: '0' } as Stats);
  \<close>
  \<^verbatim>\<open>Stats\<close> is the interface of the frontend; three of its fields carry the names of the
  backend's accumulators and are primed here. A field of a block that is not a number
  makes the sum NaN or a concatenation, which the embedding does not compute.
\<close>

record Stats =
  totalRecords :: int
  firstBlock :: int
  lastBlock :: int
  totalTransactions' :: int
  totalCrossLayerCalls' :: int
  totalGasUsed' :: string

definition initialStats :: Stats where
  "initialStats = \<lparr>totalRecords = 0, firstBlock = 0, lastBlock = 0, totalTransactions' = 0,
     totalCrossLayerCalls' = 0, totalGasUsed' = ''0''\<rparr>"

fun numberOperand :: "json option \<Rightarrow> js_error + int" where
  "numberOperand (Some (JNum n)) = Inr n"
| "numberOperand v = Inl Unmodelled"

text \<open>\<^verbatim>\<open>BigInt(v)\<close> of a property: \<^verbatim>\<open>BigInt(undefined)\<close> throws a TypeError.\<close>

fun propertyToBigInt :: "json option \<Rightarrow> js_error + int" where
  "propertyToBigInt None = Inl TypeError"
| "propertyToBigInt (Some v) = toBigInt v"

definition reduceStep :: "nat \<Rightarrow> Stats \<Rightarrow> json \<Rightarrow> js_error + Stats" where
  "reduceStep recentBlocksLength acc block =
     bindE (getProp block ''blockNumber'') (\<lambda>bn.
     bindE (numberOperand bn) (\<lambda>blockNumber.
     bindE (getProp block ''hyperEVMTxns'') (\<lambda>tx.
     bindE (numberOperand tx) (\<lambda>hyperEVMTxns.
     bindE (getProp block ''crossLayerCalls'') (\<lambda>cl.
     bindE (numberOperand cl) (\<lambda>crossLayerCalls.
     bindE (toBigInt (if totalGasUsed' acc \<noteq> [] then JStr (totalGasUsed' acc) else JStr ''0'')) (\<lambda>accGas.
     bindE (getProp block ''gasUsed'') (\<lambda>gu.
     bindE (propertyToBigInt gu) (\<lambda>blockGas.
       Inr \<lparr>totalRecords = int recentBlocksLength,
            firstBlock = (if firstBlock acc \<noteq> 0 then min (firstBlock acc) blockNumber else blockNumber),
            lastBlock = max (lastBlock acc) blockNumber,
            totalTransactions' = numberSum (totalTransactions' acc) hyperEVMTxns,
            totalCrossLayerCalls' = numberSum (totalCrossLayerCalls' acc) crossLayerCalls,
            totalGasUsed' = bigintToString (accGas + blockGas)\<rparr>)))))))))"

fun reduceStats :: "nat \<Rightarrow> Stats \<Rightarrow> json list \<Rightarrow> js_error + Stats" where
  "reduceStats n acc [] = Inr acc"
| "reduceStats n acc (block # blocks) = bindE (reduceStep n acc block) (\<lambda>acc'. reduceStats n acc' blocks)"

text \<open>\<open>stats\<close> is the summary the backend sent, when it did.\<close>

definition totalStats :: "Stats option \<Rightarrow> json list \<Rightarrow> js_error + Stats" where
  "totalStats stats recentBlocks =
     (case stats of
        Some s \<Rightarrow> Inr s
      | None \<Rightarrow> reduceStats (length recentBlocks) initialStats recentBlocks)"

text \<open>
  The summary of the backend's fold, in the fields the two have in common: what the claim
  compares the frontend's summary with.
\<close>

definition primarySummary :: "json list \<Rightarrow> js_error + int \<times> int \<times> string" where
  "primarySummary blocks =
     bindE (statsBlocks zeroTotals blocks) (\<lambda>t.
       Inr (totalTransactions t, totalCrossLayerCalls t, bigintToString (totalGasUsed t)))"

definition degradedSummary :: "json list \<Rightarrow> js_error + int \<times> int \<times> string" where
  "degradedSummary blocks =
     bindE (totalStats None blocks) (\<lambda>s.
       Inr (totalTransactions' s, totalCrossLayerCalls' s, totalGasUsed' s))"

text \<open>A property of the \<^verbatim>\<open>metrics\<close> object of a reply's body.\<close>

definition replyMetric :: "reply \<Rightarrow> string \<Rightarrow> json option" where
  "replyMetric r k =
     (case replyField r ''metrics'' of Some (JObj kvs) \<Rightarrow> map_of kvs k | _ \<Rightarrow> None)"

text \<open>
  The records the frontend's interface \<^verbatim>\<open>BlockData\<close> declares, as far as the summary reads
  them: \<^verbatim>\<open>blockNumber\<close>, \<^verbatim>\<open>hyperEVMTxns\<close> and \<^verbatim>\<open>crossLayerCalls\<close> are numbers and
  \<^verbatim>\<open>gasUsed\<close> is present. \<open>idleRecordIsEmpty\<close> holds of a record that has transactions, or
  else carries neither transactions, nor cross-layer calls, nor gas.
\<close>

fun isNumber :: "json option \<Rightarrow> bool" where
  "isNumber (Some (JNum n)) = True"
| "isNumber v = False"

fun completeRecord :: "json \<Rightarrow> bool" where
  "completeRecord (JObj kvs) =
     (isNumber (map_of kvs ''blockNumber'') \<and> isNumber (map_of kvs ''hyperEVMTxns'')
      \<and> isNumber (map_of kvs ''crossLayerCalls'') \<and> plainNumber (map_of kvs ''hyperCoreActions'')
      \<and> map_of kvs ''gasUsed'' \<noteq> None \<and> plainGas (map_of kvs ''gasUsed''))"
| "completeRecord v = False"

definition idleRecordIsEmpty :: "json \<Rightarrow> bool" where
  "idleRecordIsEmpty b =
     (activeRecord b \<or>
      (numberField b ''hyperEVMTxns'' = 0 \<and> numberField b ''crossLayerCalls'' = 0 \<and> gasField b = 0))"


section \<open>Properties of the normalizer\<close>

lemma parseBlockData_text_undecodable:
  "jsonParse s = None \<Longrightarrow> parseBlockData jsonParse (JStr s) = []"
  by (simp add: parseBlockData_def parseBlockData_try_def decodePayload_def bindE_def)

lemma parseBlockData_decoded:
  assumes "decodePayload jsonParse dataString = Inr data"
  shows "parseBlockData jsonParse dataString =
     (case data of
        JArr xs \<Rightarrow> xs
      | JObj kvs \<Rightarrow>
          (case map_of kvs ''blocks'' of
             Some (JArr bs) \<Rightarrow> bs
           | _ \<Rightarrow> if map_of kvs ''blockNumber'' \<noteq> None then [data] else [])
      | _ \<Rightarrow> [])"
  using assms
  by (cases data)
     (auto simp: parseBlockData_def parseBlockData_try_def bindE_def
           split: option.splits json.splits)

text \<open>
  C2. For every payload, \<^verbatim>\<open>parseBlockData\<close> returns: the \<^verbatim>\<open>blocks\<close> array when the decoded
  payload is an object with a \<^verbatim>\<open>blocks\<close> array field; the payload itself when it is a bare
  array; the one-element list of the payload when it is an object with a \<^verbatim>\<open>blockNumber\<close>
  field (and no \<^verbatim>\<open>blocks\<close> array); the empty list for every other shape, and the empty
  list when the payload is a text that does not decode. The function is total: every
  exception of the body (the SyntaxError of the decoder, the TypeError of reading a
  property of \<^verbatim>\<open>null\<close>) ends in the handler, which returns the empty list.
\<close>

theorem parseBlockData_dispatch:
  "(jsonParse s = None \<longrightarrow> parseBlockData jsonParse (JStr s) = []) \<and>
   (decodePayload jsonParse dataString = Inr (JObj kvs) \<and> map_of kvs ''blocks'' = Some (JArr bs)
      \<longrightarrow> parseBlockData jsonParse dataString = bs) \<and>
   (decodePayload jsonParse dataString = Inr (JArr xs)
      \<longrightarrow> parseBlockData jsonParse dataString = xs) \<and>
   (decodePayload jsonParse dataString = Inr (JObj kvs) \<and> \<not> isArray (map_of kvs ''blocks'')
      \<and> map_of kvs ''blockNumber'' = Some v
      \<longrightarrow> parseBlockData jsonParse dataString = [JObj kvs]) \<and>
   (decodePayload jsonParse dataString = Inr (JObj kvs) \<and> \<not> isArray (map_of kvs ''blocks'')
      \<and> map_of kvs ''blockNumber'' = None
      \<longrightarrow> parseBlockData jsonParse dataString = []) \<and>
   (decodePayload jsonParse dataString = Inr d \<and> d \<in> {JNull, JBool b, JNum n, JStr t}
      \<longrightarrow> parseBlockData jsonParse dataString = []) \<and>
   (parseBlockData_try jsonParse dataString = Inl e
      \<longrightarrow> parseBlockData jsonParse dataString = [])"
proof (intro conjI impI)
  assume "jsonParse s = None"
  then show "parseBlockData jsonParse (JStr s) = []"
    by (rule parseBlockData_text_undecodable)
next
  assume "decodePayload jsonParse dataString = Inr (JObj kvs) \<and> map_of kvs ''blocks'' = Some (JArr bs)"
  then show "parseBlockData jsonParse dataString = bs"
    by (simp add: parseBlockData_decoded)
next
  assume "decodePayload jsonParse dataString = Inr (JArr xs)"
  then show "parseBlockData jsonParse dataString = xs"
    by (simp add: parseBlockData_decoded)
next
  assume a: "decodePayload jsonParse dataString = Inr (JObj kvs) \<and> \<not> isArray (map_of kvs ''blocks'')
      \<and> map_of kvs ''blockNumber'' = Some v"
  then have "parseBlockData jsonParse dataString =
      (case map_of kvs ''blocks'' of
             Some (JArr bs) \<Rightarrow> bs
           | _ \<Rightarrow> if map_of kvs ''blockNumber'' \<noteq> None then [JObj kvs] else [])"
    by (simp add: parseBlockData_decoded)
  with a show "parseBlockData jsonParse dataString = [JObj kvs]"
    by (auto split: option.splits json.splits)
next
  assume a: "decodePayload jsonParse dataString = Inr (JObj kvs) \<and> \<not> isArray (map_of kvs ''blocks'')
      \<and> map_of kvs ''blockNumber'' = None"
  then have "parseBlockData jsonParse dataString =
      (case map_of kvs ''blocks'' of
             Some (JArr bs) \<Rightarrow> bs
           | _ \<Rightarrow> if map_of kvs ''blockNumber'' \<noteq> None then [JObj kvs] else [])"
    by (simp add: parseBlockData_decoded)
  with a show "parseBlockData jsonParse dataString = []"
    by (auto split: option.splits json.splits)
next
  assume "decodePayload jsonParse dataString = Inr d \<and> d \<in> {JNull, JBool b, JNum n, JStr t}"
  then show "parseBlockData jsonParse dataString = []"
    by (auto simp: parseBlockData_decoded)
next
  assume "parseBlockData_try jsonParse dataString = Inl e"
  then show "parseBlockData jsonParse dataString = []"
    by (simp add: parseBlockData_def)
qed

theorem parseBlockData_dispatch_witness:
  "parseBlockData (\<lambda>s. None) (JStr ''{oops'') = [] \<and>
   parseBlockData (\<lambda>s. None)
      (JObj [(''blocks'', JArr [JObj [(''blockNumber'', JNum 7)]]), (''blockNumber'', JNum 1)])
     = [JObj [(''blockNumber'', JNum 7)]] \<and>
   parseBlockData (\<lambda>s. if s = ''[5]'' then Some (JArr [JNum 5]) else None) (JStr ''[5]'') = [JNum 5] \<and>
   parseBlockData (\<lambda>s. None) (JObj [(''blocks'', JNum 3), (''blockNumber'', JNum 1)])
     = [JObj [(''blocks'', JNum 3), (''blockNumber'', JNum 1)]] \<and>
   parseBlockData (\<lambda>s. None) (JObj [(''height'', JNum 1)]) = [] \<and>
   parseBlockData (\<lambda>s. None) (JNum 12) = [] \<and>
   parseBlockData (\<lambda>s. None) JNull = []"
proof -
  have c1: "parseBlockData (\<lambda>s. None) (JStr ''{oops'') = []"
    using parseBlockData_dispatch [where jsonParse = "\<lambda>s. None" and s = "''{oops''"]
    by simp
  have c2: "parseBlockData (\<lambda>s. None)
      (JObj [(''blocks'', JArr [JObj [(''blockNumber'', JNum 7)]]), (''blockNumber'', JNum 1)])
     = [JObj [(''blockNumber'', JNum 7)]]"
    using parseBlockData_dispatch [where jsonParse = "\<lambda>s. None"
        and dataString = "JObj [(''blocks'', JArr [JObj [(''blockNumber'', JNum 7)]]), (''blockNumber'', JNum 1)]"
        and kvs = "[(''blocks'', JArr [JObj [(''blockNumber'', JNum 7)]]), (''blockNumber'', JNum 1)]"
        and bs = "[JObj [(''blockNumber'', JNum 7)]]"]
    by (simp add: decodePayload_def)
  have c3: "parseBlockData (\<lambda>s. if s = ''[5]'' then Some (JArr [JNum 5]) else None) (JStr ''[5]'') = [JNum 5]"
    using parseBlockData_dispatch [where jsonParse = "\<lambda>s. if s = ''[5]'' then Some (JArr [JNum 5]) else None"
        and dataString = "JStr ''[5]''" and xs = "[JNum 5]"]
    by (simp add: decodePayload_def)
  have c4: "parseBlockData (\<lambda>s. None) (JObj [(''blocks'', JNum 3), (''blockNumber'', JNum 1)])
     = [JObj [(''blocks'', JNum 3), (''blockNumber'', JNum 1)]]"
    using parseBlockData_dispatch [where jsonParse = "\<lambda>s. None"
        and dataString = "JObj [(''blocks'', JNum 3), (''blockNumber'', JNum 1)]"
        and kvs = "[(''blocks'', JNum 3), (''blockNumber'', JNum 1)]" and v = "JNum 1"]
    by (simp add: decodePayload_def)
  have c5: "parseBlockData (\<lambda>s. None) (JObj [(''height'', JNum 1)]) = []"
    using parseBlockData_dispatch [where jsonParse = "\<lambda>s. None"
        and dataString = "JObj [(''height'', JNum 1)]" and kvs = "[(''height'', JNum 1)]"]
    by (simp add: decodePayload_def)
  have c6: "parseBlockData (\<lambda>s. None) (JNum 12) = []"
    using parseBlockData_dispatch [where jsonParse = "\<lambda>s. None"
        and dataString = "JNum 12" and d = "JNum 12" and n = 12]
    by (simp add: decodePayload_def)
  have c7: "parseBlockData (\<lambda>s. None) JNull = []"
    using parseBlockData_dispatch [where jsonParse = "\<lambda>s. None"
        and dataString = JNull and e = TypeError]
    by (simp add: parseBlockData_try_def decodePayload_def bindE_def)
  from c1 c2 c3 c4 c5 c6 c7 show ?thesis by blast
qed

section \<open>Properties of the doubles\<close>

lemma roundHalfEven_error: "\<bar>of_int (roundHalfEven y) - y\<bar> \<le> 1 / 2"
proof -
  define r where "r = y - of_int \<lfloor>y\<rfloor>"
  have r: "0 \<le> r" "r < 1" unfolding r_def by linarith+
  have y: "y = of_int \<lfloor>y\<rfloor> + r" unfolding r_def by simp
  consider "r < 1 / 2" | "1 / 2 < r" | "r = 1 / 2" by linarith
  then show ?thesis
  proof cases
    case 1
    then have "roundHalfEven y = \<lfloor>y\<rfloor>" by (simp add: roundHalfEven_def Let_def r_def)
    then show ?thesis using r 1 y by linarith
  next
    case 2
    then have "roundHalfEven y = \<lfloor>y\<rfloor> + 1" by (simp add: roundHalfEven_def Let_def r_def)
    then have "of_int (roundHalfEven y) = of_int \<lfloor>y\<rfloor> + (1::rat)" by simp
    then show ?thesis using r 2 y by linarith
  next
    case 3
    then have "roundHalfEven y = \<lfloor>y\<rfloor> \<or> roundHalfEven y = \<lfloor>y\<rfloor> + 1"
      by (simp add: roundHalfEven_def Let_def r_def)
    then have "of_int (roundHalfEven y) = (of_int \<lfloor>y\<rfloor> :: rat)
        \<or> of_int (roundHalfEven y) = of_int \<lfloor>y\<rfloor> + (1::rat)" by auto
    then show ?thesis using 3 y by (elim disjE) linarith+
  qed
qed

lemma roundHalfEven_nonneg: "0 \<le> y \<Longrightarrow> 0 \<le> roundHalfEven y"
  by (auto simp: roundHalfEven_def Let_def)

lemma binade_bounds:
  assumes "x \<noteq> 0"
  shows "2 powi (binade x) \<le> \<bar>x\<bar>" and "\<bar>x\<bar> < 2 powi (binade x + 1)"
proof -
  obtain p q where pq: "quotient_of \<bar>x\<bar> = (p, q)" by (cases "quotient_of \<bar>x\<bar>")
  then have q: "0 < q" by (rule quotient_of_denom_pos)
  have x: "\<bar>x\<bar> = of_int p / of_int q" using pq by (rule quotient_of_div)
  have "0 < \<bar>x\<bar>" using assms by simp
  then have p: "0 < p" using x q by (simp add: zero_less_divide_iff)
  let ?bp = "bitlen p" and ?bq = "bitlen q"
  have bp: "2 ^ nat (?bp - 1) \<le> p" "p < 2 ^ nat ?bp" using bitlen_bounds [OF p] by simp_all
  have bq: "2 ^ nat (?bq - 1) \<le> q" "q < 2 ^ nat ?bq" using bitlen_bounds [OF q] by simp_all
  have bp1: "1 \<le> ?bp" using p by (simp add: bitlen_def floorlog_def)
  have bq1: "1 \<le> ?bq" using q by (simp add: bitlen_def floorlog_def)
  have P1: "(2::rat) powi (?bp - 1) \<le> of_int p"
  proof -
    have "(of_int (2 ^ nat (?bp - 1)) :: rat) \<le> of_int p" using bp(1) by (simp only: of_int_le_iff)
    moreover have "(2::rat) powi (?bp - 1) = 2 ^ nat (?bp - 1)"
      using bp1 by (simp add: power_int_def)
    ultimately show ?thesis by simp
  qed
  have P2: "of_int p < (2::rat) powi ?bp"
  proof -
    have "(of_int p :: rat) < of_int (2 ^ nat ?bp)" using bp(2) by (simp only: of_int_less_iff)
    moreover have "(2::rat) powi ?bp = 2 ^ nat ?bp"
      using bp1 by (simp add: power_int_def)
    ultimately show ?thesis by simp
  qed
  have Q1: "(2::rat) powi (?bq - 1) \<le> of_int q"
  proof -
    have "(of_int (2 ^ nat (?bq - 1)) :: rat) \<le> of_int q" using bq(1) by (simp only: of_int_le_iff)
    moreover have "(2::rat) powi (?bq - 1) = 2 ^ nat (?bq - 1)"
      using bq1 by (simp add: power_int_def)
    ultimately show ?thesis by simp
  qed
  have Q2: "of_int q < (2::rat) powi ?bq"
  proof -
    have "(of_int q :: rat) < of_int (2 ^ nat ?bq)" using bq(2) by (simp only: of_int_less_iff)
    moreover have "(2::rat) powi ?bq = 2 ^ nat ?bq"
      using bq1 by (simp add: power_int_def)
    ultimately show ?thesis by simp
  qed
  have qpos: "(0::rat) < of_int q" using q by simp
  have ppos: "(0::rat) < of_int p" using p by simp
  have low: "(2::rat) powi (?bp - ?bq - 1) \<le> \<bar>x\<bar>"
  proof -
    have "(2::rat) powi (?bp - ?bq - 1) = 2 powi ((?bp - 1) - ?bq)"
      by (rule arg_cong [where f = "\<lambda>e. 2 powi e"]) simp
    also have "\<dots> = 2 powi (?bp - 1) / 2 powi ?bq"
      by (rule power_int_diff) simp
    also have "\<dots> \<le> of_int p / 2 powi ?bq"
      using P1 by (simp add: divide_right_mono)
    also have "\<dots> \<le> of_int p / of_int q"
      using Q2 qpos ppos by (simp add: frac_le)
    finally show ?thesis using x by simp
  qed
  have up: "\<bar>x\<bar> < (2::rat) powi (?bp - ?bq + 1)"
  proof -
    have pw: "(0::rat) < 2 powi (?bq - 1)" by simp
    have "of_int p / of_int q \<le> of_int p / (2::rat) powi (?bq - 1)"
      using Q1 pw ppos by (simp add: frac_le)
    also have "\<dots> < 2 powi ?bp / 2 powi (?bq - 1)"
      using P2 pw by (simp add: divide_strict_right_mono)
    also have "\<dots> = 2 powi (?bp - (?bq - 1))"
      by (rule power_int_diff [symmetric]) simp
    also have "\<dots> = 2 powi (?bp - ?bq + 1)"
      by (rule arg_cong [where f = "\<lambda>e. 2 powi e"]) simp
    finally show ?thesis using x by simp
  qed
  have b: "binade x = (if 2 powi (?bp - ?bq) \<le> \<bar>x\<bar> then ?bp - ?bq else ?bp - ?bq - 1)"
    by (simp add: binade_def pq)
  show "2 powi (binade x) \<le> \<bar>x\<bar>" using low by (simp add: b)
  show "\<bar>x\<bar> < 2 powi (binade x + 1)" using up by (auto simp: b)
qed


lemma roundDouble_error: "\<bar>roundDouble x - x\<bar> \<le> \<bar>x\<bar> / 2 ^ 53"
proof (cases "x = 0")
  case True
  then show ?thesis by (simp add: roundDouble_def)
next
  case False
  define u :: rat where "u = 2 powi (binade x - 52)"
  have u: "0 < u" unfolding u_def by simp
  have rd: "roundDouble x = of_int (roundHalfEven (x / u)) * u"
    using False by (simp add: roundDouble_def u_def Let_def)
  have "\<bar>roundDouble x - x\<bar> = \<bar>of_int (roundHalfEven (x / u)) - x / u\<bar> * u"
  proof -
    have "roundDouble x - x = (of_int (roundHalfEven (x / u)) - x / u) * u"
      using u by (simp add: rd algebra_simps)
    then show ?thesis using u by (simp add: abs_mult)
  qed
  also have "\<dots> \<le> (1 / 2) * u"
    using roundHalfEven_error [of "x / u"] u by (intro mult_right_mono) simp_all
  also have "\<dots> = 2 powi (binade x) / 2 ^ 53"
  proof -
    have "(2::rat) powi (binade x - 52) = 2 powi (binade x) / 2 powi 52"
      by (rule power_int_diff) simp
    then show ?thesis by (simp add: u_def)
  qed
  also have "\<dots> \<le> \<bar>x\<bar> / 2 ^ 53"
    using binade_bounds(1) [OF False] by (simp add: divide_right_mono)
  finally show ?thesis .
qed

lemma roundDouble_nonneg: "0 \<le> x \<Longrightarrow> 0 \<le> roundDouble x"
proof (cases "x = 0")
  case False
  assume "0 \<le> x"
  then have "0 \<le> x / 2 powi (binade x - 52)" by simp
  then have "0 \<le> roundHalfEven (x / 2 powi (binade x - 52))" by (rule roundHalfEven_nonneg)
  then show ?thesis using False by (simp add: roundDouble_def Let_def)
qed (simp add: roundDouble_def)

text \<open>Up to \<open>2^53\<close> an integer is its own double, and a sum that stays there is exact.\<close>

lemma roundHalfEven_of_int: "roundHalfEven (of_int m) = m"
  by (simp add: roundHalfEven_def Let_def)

lemma roundDouble_multiple:
  assumes "x \<noteq> 0" and "x = of_int m * 2 powi (binade x - 52)"
  shows "roundDouble x = x"
proof -
  have u: "(2::rat) powi (binade x - 52) \<noteq> 0" by simp
  have "x / 2 powi (binade x - 52) = of_int m"
    using assms(2) u by (metis nonzero_mult_div_cancel_right)
  then show ?thesis
    using assms by (simp add: roundDouble_def Let_def roundHalfEven_of_int)
qed

lemma roundDouble_integer:
  assumes "\<bar>n\<bar> \<le> 2 ^ 53"
  shows "roundDouble (of_int n) = of_int n"
proof (cases "n = 0")
  case True
  then show ?thesis by (simp add: roundDouble_def)
next
  case False
  define x :: rat where "x = of_int n"
  define e where "e = binade x"
  have x0: "x \<noteq> 0" using False by (simp add: x_def)
  have lo: "2 powi e \<le> \<bar>x\<bar>" unfolding e_def by (rule binade_bounds(1) [OF x0])
  have ax: "\<bar>x\<bar> = of_int \<bar>n\<bar>" by (simp add: x_def)
  have up: "\<bar>x\<bar> \<le> 2 powi 53"
  proof -
    have "(of_int \<bar>n\<bar> :: rat) \<le> of_int (2 ^ 53)" using assms by (simp only: of_int_le_iff)
    then show ?thesis by (simp add: ax)
  qed
  have e53: "e \<le> 53"
  proof (rule ccontr)
    assume "\<not> e \<le> 53"
    then have "53 < e" by simp
    then have "(2::rat) powi 53 < 2 powi e" by (rule power_int_strict_increasing) simp
    with lo up show False by simp
  qed
  have "\<exists>m. x = of_int m * 2 powi (e - 52)"
  proof (cases "e \<le> 52")
    case True
    define k where "k = nat (52 - e)"
    have "(2::rat) powi (e - 52) = inverse (2 ^ k)"
    proof -
      have "e - 52 = - int k" using True by (simp add: k_def)
      then show ?thesis by (simp add: power_int_minus)
    qed
    then have "of_int (n * 2 ^ k) * (2::rat) powi (e - 52) = x"
      by (simp add: x_def)
    then show ?thesis by metis
  next
    case False
    with e53 have e: "e = 53" by simp
    have "(2::rat) powi 53 \<le> \<bar>x\<bar>" using lo e by simp
    with up have "\<bar>x\<bar> = 2 powi 53" by simp
    then have "(of_int \<bar>n\<bar> :: rat) = of_int (2 ^ 53)" by (simp add: ax)
    then have an: "\<bar>n\<bar> = 2 ^ 53" by (simp only: of_int_eq_iff)
    then have "n = 2 ^ 53 \<or> n = - (2 ^ 53)" by (simp add: abs_if split: if_splits)
    then have "n = 2 ^ 52 * 2 \<or> n = - (2 ^ 52) * 2" by simp
    then obtain m where "n = m * 2" by blast
    then have "x = of_int m * 2 powi (e - 52)" by (simp add: x_def e)
    then show ?thesis by blast
  qed
  then obtain m where "x = of_int m * 2 powi (binade x - 52)" unfolding e_def by blast
  from roundDouble_multiple [OF x0 this] show ?thesis by (simp add: x_def)
qed

lemma roundInteger_exact: "\<bar>n\<bar> \<le> 2 ^ 53 \<Longrightarrow> roundInteger n = n"
  by (simp add: roundInteger_def roundDouble_integer)

lemma numberSum_exact: "\<bar>a + b\<bar> \<le> 2 ^ 53 \<Longrightarrow> numberSum a b = a + b"
  by (simp add: numberSum_def roundInteger_exact)

lemma numberSum_rounds: "numberSum (2 ^ 53) 1 = 2 ^ 53"
  by code_simp

lemma roundInteger_bound:
  assumes "\<bar>n\<bar> < 2 ^ 1023"
  shows "\<bar>roundInteger n\<bar> < 2 ^ 1024"
proof -
  define x :: rat where "x = of_int n"
  have ax: "\<bar>x\<bar> \<le> 2 ^ 1023 - 1"
  proof -
    from assms have "\<bar>n\<bar> \<le> 2 ^ 1023 - 1" by simp
    then have "(of_int \<bar>n\<bar> :: rat) \<le> of_int (2 ^ 1023 - 1)" by (simp only: of_int_le_iff)
    then show ?thesis by (simp add: x_def)
  qed
  have "\<bar>roundDouble x - x\<bar> \<le> \<bar>x\<bar> / 2 ^ 53" by (rule roundDouble_error)
  also have "\<dots> \<le> \<bar>x\<bar>" by (simp add: field_simps)
  finally have e: "\<bar>roundDouble x - x\<bar> \<le> \<bar>x\<bar>" .
  then have "\<bar>roundDouble x\<bar> \<le> 2 * \<bar>x\<bar>" by linarith
  with ax have r: "\<bar>roundDouble x\<bar> \<le> 2 ^ 1024 - 2" by simp
  have up: "\<lfloor>roundDouble x\<rfloor> < 2 ^ 1024"
  proof -
    have "roundDouble x < of_int (2 ^ 1024)" using r by simp
    then show ?thesis by (simp only: floor_less_iff)
  qed
  have low: "- (2 ^ 1024) < \<lfloor>roundDouble x\<rfloor>"
  proof -
    have "of_int (- (2 ^ 1024) + 1) \<le> roundDouble x" using r by simp
    then have "- (2 ^ 1024) + 1 \<le> \<lfloor>roundDouble x\<rfloor>" by (simp only: le_floor_iff)
    then show ?thesis by simp
  qed
  from up low have "\<bar>\<lfloor>roundDouble x\<rfloor>\<bar> < 2 ^ 1024" by linarith
  then show ?thesis by (simp only: roundInteger_def x_def)
qed

text \<open>The floor of a double quotient is the integer quotient while the dividend is below \<open>2^53\<close>.\<close>

lemma floor_quotient_exact:
  assumes a: "0 \<le> a" "a < 2 ^ 53" and b: "0 < b"
  shows "\<lfloor>numDivide (of_int a) (of_int b)\<rfloor> = a div b"
proof -
  define q where "q = a div b"
  define r where "r = a mod b"
  define B :: rat where "B = of_int b"
  define x :: rat where "x = of_int a / B"
  have Bpos: "0 < B" using b by (simp add: B_def)
  have r: "0 \<le> r" "r < b" using b by (simp_all add: r_def)
  have q: "0 \<le> q" using a b by (simp add: q_def pos_imp_zdiv_nonneg_iff)
  have aqr: "a = q * b + r" by (simp add: q_def r_def)
  have x: "x = of_int q + of_int r / B"
    using Bpos by (simp add: x_def aqr B_def field_simps)
  have xpos: "0 \<le> x" using a Bpos by (simp add: x_def)
  have err: "\<bar>roundDouble x - x\<bar> \<le> x / 2 ^ 53"
    using roundDouble_error [of x] xpos by simp
  have small: "x / 2 ^ 53 < 1 / B"
  proof -
    have "(of_int a :: rat) < of_int (2 ^ 53)" using a(2) by (simp only: of_int_less_iff)
    then have "(of_int a :: rat) / 2 ^ 53 < 1" by simp
    then have "(of_int a / 2 ^ 53) / B < 1 / B" using Bpos by (rule divide_strict_right_mono)
    then show ?thesis by (simp add: x_def)
  qed
  have up: "roundDouble x < of_int q + 1"
  proof -
    have "r \<le> b - 1" using r(2) by simp
    then have "of_int r \<le> (of_int (b - 1) :: rat)" by (simp only: of_int_le_iff)
    then have "of_int r / B \<le> (B - 1) / B" using Bpos by (simp add: divide_right_mono B_def)
    also have "\<dots> = 1 - 1 / B" using Bpos by (simp add: field_simps)
    finally have "x \<le> of_int q + 1 - 1 / B" using x by simp
    with err small show ?thesis by linarith
  qed
  have low: "of_int q \<le> roundDouble x"
  proof (cases "r = 0")
    case True
    then have xq: "x = of_int q" using x by simp
    have "q * 1 \<le> q * b" using q b by (intro mult_left_mono) simp_all
    then have "q \<le> a" using aqr True by simp
    then have "\<bar>q\<bar> \<le> 2 ^ 53" using q a(2) by simp
    then show ?thesis by (simp add: xq roundDouble_integer)
  next
    case False
    then have "1 \<le> r" using r(1) by simp
    then have "(of_int 1 :: rat) \<le> of_int r" by (simp only: of_int_le_iff)
    then have "1 / B \<le> of_int r / B" using Bpos by (simp add: divide_right_mono)
    with small have "x / 2 ^ 53 < of_int r / B" by linarith
    with err x show ?thesis by linarith
  qed
  from low up have "\<lfloor>roundDouble x\<rfloor> = q" by (simp add: floor_unique)
  then show ?thesis by (simp add: numDivide_def x_def B_def q_def)
qed

section \<open>Properties of the numerals\<close>

lemma digitChar_cases:
  assumes "0 \<le> d" "d < 10"
  shows "d \<in> {0, 1, 2, 3, 4, 5, 6, 7, 8, 9 :: int}"
  using assms by simp presburger

lemma digitChar_in: "0 \<le> d \<Longrightarrow> d < 10 \<Longrightarrow> digitChar d \<in> set ''0123456789''"
  using digitChar_cases [of d] by (auto simp: digitChar_def)

lemma digitValue_digitChar: "0 \<le> d \<Longrightarrow> d < 10 \<Longrightarrow> digitValue (digitChar d) = Some d"
  using digitChar_cases [of d] by (auto simp: digitChar_def digitValue_def)

lemma decimalDigits_chars: "0 \<le> n \<Longrightarrow> set (decimalDigits n) \<subseteq> set ''0123456789''"
proof (induction n rule: decimalDigits.induct)
  case (1 n)
  show ?case
  proof (cases "n < 10")
    case True
    with 1 show ?thesis using digitChar_in [of n] by (simp add: decimalDigits.simps [of n])
  next
    case False
    with 1 have "set (decimalDigits (n div 10)) \<subseteq> set ''0123456789''" by simp
    moreover have "digitChar (n mod 10) \<in> set ''0123456789''"
      by (rule digitChar_in) simp_all
    ultimately show ?thesis using False by (simp add: decimalDigits.simps [of n])
  qed
qed

lemma decimalDigits_nonempty: "decimalDigits n \<noteq> []"
  by (simp add: decimalDigits.simps [of n])

lemma digitsValue_snoc:
  "digitsValue r acc (xs @ [c]) =
     (case digitsValue r acc xs of
        None \<Rightarrow> None
      | Some a \<Rightarrow> (case digitValue c of None \<Rightarrow> None | Some d \<Rightarrow> if d < r then Some (a * r + d) else None))"
  by (induction xs arbitrary: acc) (auto split: option.splits)

lemma digitsValue_decimalDigits: "0 \<le> n \<Longrightarrow> digitsValue 10 0 (decimalDigits n) = Some n"
proof (induction n rule: decimalDigits.induct)
  case (1 n)
  show ?case
  proof (cases "n < 10")
    case True
    with 1 show ?thesis by (simp add: decimalDigits.simps [of n] digitValue_digitChar)
  next
    case False
    with 1 have "digitsValue 10 0 (decimalDigits (n div 10)) = Some (n div 10)" by simp
    moreover have "digitValue (digitChar (n mod 10)) = Some (n mod 10)"
      by (rule digitValue_digitChar) simp_all
    ultimately show ?thesis using False
      by (simp add: decimalDigits.simps [of n] digitsValue_snoc)
  qed
qed

lemma decimal_char_facts:
  assumes "c \<in> set ''0123456789''"
  shows "\<not> isWhiteSpace c" "c \<noteq> CHR ''-''" "c \<noteq> CHR ''+''" "c \<noteq> CHR ''x''" "c \<noteq> CHR ''X''"
    "c \<noteq> CHR ''o''" "c \<noteq> CHR ''O''" "c \<noteq> CHR ''b''" "c \<noteq> CHR ''B''"
  using assms by (auto simp: isWhiteSpace_def)

lemma trimString_id:
  assumes "\<forall>c \<in> set s. \<not> isWhiteSpace c"
  shows "trimString s = s"
proof -
  have "dropWhile isWhiteSpace xs = xs" if "\<forall>c \<in> set xs. \<not> isWhiteSpace c" for xs
    using that by (cases xs) simp_all
  from this [of s] this [of "rev s"] show ?thesis using assms by (simp add: trimString_def)
qed

lemma StringToBigInt_decimalDigits:
  assumes "0 \<le> n"
  shows "StringToBigInt (decimalDigits n) = Some n"
proof -
  let ?t = "decimalDigits n"
  have chars: "set ?t \<subseteq> set ''0123456789''" by (rule decimalDigits_chars [OF assms])
  then have trim: "trimString ?t = ?t"
    by (intro trimString_id) (use decimal_char_facts(1) in blast)
  obtain c cs where t: "?t = c # cs" using decimalDigits_nonempty [of n] by (cases ?t) auto
  have c: "c \<in> set ''0123456789''" using chars t by auto
  have sd: "signedDecimal ?t = Some n"
    using decimal_char_facts(2,3) [OF c] digitsValue_decimalDigits [OF assms] t
    by (simp add: signedDecimal_def radixLiteral_def)
  show ?thesis
  proof (cases cs)
    case Nil
    with t trim sd show ?thesis by (simp add: StringToBigInt_def)
  next
    case (Cons c2 ds)
    then have "c2 \<in> set ''0123456789''" using chars t by auto
    from decimal_char_facts(4-9) [OF this] t trim sd Cons show ?thesis
      by (simp add: StringToBigInt_def)
  qed
qed

lemma StringToBigInt_bigintToString: "StringToBigInt (bigintToString n) = Some n"
proof (cases "n < 0")
  case False
  then show ?thesis by (simp add: bigintToString_def StringToBigInt_decimalDigits)
next
  case True
  let ?t = "decimalDigits (- n)"
  from True have pos: "0 \<le> - n" by simp
  have chars: "set ?t \<subseteq> set ''0123456789''" by (rule decimalDigits_chars [OF pos])
  obtain c cs where t: "?t = c # cs" using decimalDigits_nonempty [of "- n"] by (cases ?t) auto
  have c: "c \<in> set ''0123456789''" using chars t by auto
  have ws: "\<forall>c \<in> set (CHR ''-'' # ?t). \<not> isWhiteSpace c"
    using chars decimal_char_facts(1) by (auto simp: isWhiteSpace_def)
  have trim: "trimString (CHR ''-'' # c # cs) = CHR ''-'' # c # cs"
    using trimString_id [OF ws] t by simp
  have "digitsValue 10 0 (c # cs) = Some (- n)"
    using digitsValue_decimalDigits [OF pos] t by simp
  then have "StringToBigInt (CHR ''-'' # c # cs) = Some n"
    unfolding StringToBigInt_def trim
    by (simp add: signedDecimal_def radixLiteral_def)
  then have "StringToBigInt (CHR ''-'' # ?t) = Some n"
    using t by simp
  with True show ?thesis by (simp add: bigintToString_def)
qed

lemma bigintToString_zero: "bigintToString 0 = ''0''"
  by (simp add: bigintToString_def decimalDigits.simps [of 0] digitChar_def)

section \<open>Properties of the aggregator\<close>

lemma orZero_simps [simp]:
  "orZero None = JNum 0"
  "orZero (Some (JNum n)) = JNum n"
  "s \<noteq> [] \<Longrightarrow> orZero (Some (JStr s)) = JStr s"
  "orZero (Some (JStr [])) = JNum 0"
  by (simp_all add: orZero_def)

lemma StringToBigInt_empty [simp]: "StringToBigInt [] = Some 0"
  by (simp add: StringToBigInt_def trimString_def)

lemma statsBlock_record:
  assumes "blockRecord b"
  shows "statsBlock acc b =
     Inr (if activeRecord b
          then \<lparr>totalTransactions = numberSum (totalTransactions acc) (numberField b ''hyperEVMTxns''),
                totalCrossLayerCalls = numberSum (totalCrossLayerCalls acc) (numberField b ''crossLayerCalls''),
                totalGasUsed = totalGasUsed acc + gasField b,
                totalHyperCoreActions = numberSum (totalHyperCoreActions acc) (numberField b ''hyperCoreActions''),
                processedBlocks = numberSum (processedBlocks acc) 1\<rparr>
          else acc)"
proof (cases b)
  case (JObj kvs)
  with assms have p: "plainNumber (map_of kvs ''hyperEVMTxns'')" "plainNumber (map_of kvs ''crossLayerCalls'')"
    "plainNumber (map_of kvs ''hyperCoreActions'')" "plainGas (map_of kvs ''gasUsed'')"
    by simp_all
  obtain t where t: "gtZero (map_of kvs ''hyperEVMTxns'') = Inr (0 < t)"
      "orZero (map_of kvs ''hyperEVMTxns'') = JNum t" "numberField b ''hyperEVMTxns'' = t"
    using p(1) JObj by (cases "map_of kvs ''hyperEVMTxns''" rule: plainNumber.cases) (auto simp: numberField_def)
  obtain c where c: "orZero (map_of kvs ''crossLayerCalls'') = JNum c" "numberField b ''crossLayerCalls'' = c"
    using p(2) JObj by (cases "map_of kvs ''crossLayerCalls''" rule: plainNumber.cases) (auto simp: numberField_def)
  obtain h where h: "orZero (map_of kvs ''hyperCoreActions'') = JNum h" "numberField b ''hyperCoreActions'' = h"
    using p(3) JObj by (cases "map_of kvs ''hyperCoreActions''" rule: plainNumber.cases) (auto simp: numberField_def)
  have g: "toBigInt (orZero (map_of kvs ''gasUsed'')) = Inr (gasField b)"
    using p(4) JObj
    by (cases "map_of kvs ''gasUsed''" rule: plainGas.cases)
       (auto simp: gasField_def orZero_def)
  show ?thesis
    using t c h g JObj by (simp add: statsBlock_def bindE_def activeRecord_def)
qed (use assms in simp_all)

lemma statsBlocks_append:
  "statsBlocks acc (xs @ ys) = bindE (statsBlocks acc xs) (\<lambda>acc'. statsBlocks acc' ys)"
  by (induction xs arbitrary: acc) (auto simp: bindE_def split: sum.splits)

lemma statsRows_concat:
  "statsRows jsonParse acc rows = statsBlocks acc (concat (map (parseBlockData jsonParse) rows))"
  by (induction rows arbitrary: acc) (auto simp: statsBlocks_append bindE_def split: sum.splits)

text \<open>Only the active records matter to the fold, and the gas total is an integer sum.\<close>

lemma statsBlocks_filter:
  assumes "list_all blockRecord bs"
  shows "statsBlocks acc bs = statsBlocks acc (filter activeRecord bs)"
  using assms
proof (induction bs arbitrary: acc)
  case Nil
  then show ?case by simp
next
  case (Cons b bs)
  then have b: "blockRecord b" and bs: "list_all blockRecord bs" by simp_all
  show ?case
    by (cases "activeRecord b") (simp_all add: statsBlock_record [OF b] Cons.IH [OF bs] bindE_def)
qed

lemma statsBlocks_gas:
  assumes "list_all blockRecord bs"
  shows "\<exists>t. statsBlocks acc bs = Inr t
     \<and> totalGasUsed t = totalGasUsed acc + (\<Sum>b\<leftarrow>filter activeRecord bs. gasField b)"
  using assms
proof (induction bs arbitrary: acc)
  case Nil
  then show ?case by simp
next
  case (Cons b bs)
  then have b: "blockRecord b" and bs: "list_all blockRecord bs" by simp_all
  show ?case
  proof (cases "activeRecord b")
    case True
    define acc' where "acc' =
      \<lparr>totalTransactions = numberSum (totalTransactions acc) (numberField b ''hyperEVMTxns''),
       totalCrossLayerCalls = numberSum (totalCrossLayerCalls acc) (numberField b ''crossLayerCalls''),
       totalGasUsed = totalGasUsed acc + gasField b,
       totalHyperCoreActions = numberSum (totalHyperCoreActions acc) (numberField b ''hyperCoreActions''),
       processedBlocks = numberSum (processedBlocks acc) 1\<rparr>"
    have s: "statsBlock acc b = Inr acc'"
      using True by (simp add: statsBlock_record [OF b] acc'_def)
    from Cons.IH [OF bs, of acc'] obtain t where
      "statsBlocks acc' bs = Inr t"
      "totalGasUsed t = totalGasUsed acc' + (\<Sum>b\<leftarrow>filter activeRecord bs. gasField b)"
      by blast
    then show ?thesis using True s by (simp add: bindE_def acc'_def)
  next
    case False
    then show ?thesis using Cons.IH [OF bs, of acc] by (simp add: statsBlock_record [OF b] bindE_def)
  qed
qed

lemma sum_abs_nonneg: "0 \<le> (\<Sum>b\<leftarrow>bs. \<bar>f b :: int\<bar>)"
  by (induction bs) simp_all

text \<open>While the counters stay in the safe range, every total is the exact sum.\<close>

lemma statsBlocks_safe:
  assumes "list_all activeRecord bs" and "list_all blockRecord bs"
    and "\<bar>totalTransactions acc\<bar> + (\<Sum>b\<leftarrow>bs. \<bar>numberField b ''hyperEVMTxns''\<bar>) \<le> 2 ^ 53"
    and "\<bar>totalCrossLayerCalls acc\<bar> + (\<Sum>b\<leftarrow>bs. \<bar>numberField b ''crossLayerCalls''\<bar>) \<le> 2 ^ 53"
    and "\<bar>totalHyperCoreActions acc\<bar> + (\<Sum>b\<leftarrow>bs. \<bar>numberField b ''hyperCoreActions''\<bar>) \<le> 2 ^ 53"
    and "0 \<le> processedBlocks acc" and "processedBlocks acc + int (length bs) \<le> 2 ^ 53"
  shows "statsBlocks acc bs =
     Inr \<lparr>totalTransactions = totalTransactions acc + (\<Sum>b\<leftarrow>bs. numberField b ''hyperEVMTxns''),
          totalCrossLayerCalls = totalCrossLayerCalls acc + (\<Sum>b\<leftarrow>bs. numberField b ''crossLayerCalls''),
          totalGasUsed = totalGasUsed acc + (\<Sum>b\<leftarrow>bs. gasField b),
          totalHyperCoreActions = totalHyperCoreActions acc + (\<Sum>b\<leftarrow>bs. numberField b ''hyperCoreActions''),
          processedBlocks = processedBlocks acc + int (length bs)\<rparr>"
  using assms
proof (induction bs arbitrary: acc)
  case Nil
  show ?case by simp
next
  case (Cons b bs)
  from Cons.prems(1,2)
  have b: "blockRecord b" "activeRecord b" and bs: "list_all activeRecord bs" "list_all blockRecord bs"
    by simp_all
  define tx where "tx = numberField b ''hyperEVMTxns''"
  define cl where "cl = numberField b ''crossLayerCalls''"
  define ha where "ha = numberField b ''hyperCoreActions''"
  define stx where "stx = (\<Sum>b\<leftarrow>bs. \<bar>numberField b ''hyperEVMTxns''\<bar>)"
  define scl where "scl = (\<Sum>b\<leftarrow>bs. \<bar>numberField b ''crossLayerCalls''\<bar>)"
  define sha where "sha = (\<Sum>b\<leftarrow>bs. \<bar>numberField b ''hyperCoreActions''\<bar>)"
  define B :: int where "B = 2 ^ 53"
  have r: "0 \<le> stx" "0 \<le> scl" "0 \<le> sha"
    unfolding stx_def scl_def sha_def by (rule sum_abs_nonneg)+
  have q3: "\<bar>totalTransactions acc\<bar> + (\<bar>tx\<bar> + stx) \<le> B"
    using Cons.prems(3) unfolding tx_def stx_def B_def by (simp only: list.map sum_list.Cons)
  have q4: "\<bar>totalCrossLayerCalls acc\<bar> + (\<bar>cl\<bar> + scl) \<le> B"
    using Cons.prems(4) unfolding cl_def scl_def B_def by (simp only: list.map sum_list.Cons)
  have q5: "\<bar>totalHyperCoreActions acc\<bar> + (\<bar>ha\<bar> + sha) \<le> B"
    using Cons.prems(5) unfolding ha_def sha_def B_def by (simp only: list.map sum_list.Cons)
  have q7: "processedBlocks acc + (1 + int (length bs)) \<le> B"
    using Cons.prems(7) unfolding B_def by simp
  have q6: "0 \<le> processedBlocks acc" by (rule Cons.prems(6))
  have e1: "numberSum (totalTransactions acc) tx = totalTransactions acc + tx"
  proof (rule numberSum_exact)
    show "\<bar>totalTransactions acc + tx\<bar> \<le> 2 ^ 53" using q3 r(1) unfolding B_def [symmetric] by linarith
  qed
  have e2: "numberSum (totalCrossLayerCalls acc) cl = totalCrossLayerCalls acc + cl"
  proof (rule numberSum_exact)
    show "\<bar>totalCrossLayerCalls acc + cl\<bar> \<le> 2 ^ 53" using q4 r(2) unfolding B_def [symmetric] by linarith
  qed
  have e3: "numberSum (totalHyperCoreActions acc) ha = totalHyperCoreActions acc + ha"
  proof (rule numberSum_exact)
    show "\<bar>totalHyperCoreActions acc + ha\<bar> \<le> 2 ^ 53" using q5 r(3) unfolding B_def [symmetric] by linarith
  qed
  have e4: "numberSum (processedBlocks acc) 1 = processedBlocks acc + 1"
  proof (rule numberSum_exact)
    show "\<bar>processedBlocks acc + 1\<bar> \<le> 2 ^ 53" using q6 q7 unfolding B_def [symmetric] by linarith
  qed
  define acc' where "acc' =
      \<lparr>totalTransactions = totalTransactions acc + tx,
       totalCrossLayerCalls = totalCrossLayerCalls acc + cl,
       totalGasUsed = totalGasUsed acc + gasField b,
       totalHyperCoreActions = totalHyperCoreActions acc + ha,
       processedBlocks = processedBlocks acc + 1\<rparr>"
  have sel: "totalTransactions acc' = totalTransactions acc + tx"
    "totalCrossLayerCalls acc' = totalCrossLayerCalls acc + cl"
    "totalGasUsed acc' = totalGasUsed acc + gasField b"
    "totalHyperCoreActions acc' = totalHyperCoreActions acc + ha"
    "processedBlocks acc' = processedBlocks acc + 1"
    by (simp_all add: acc'_def)
  have s: "statsBlock acc b = Inr acc'"
    unfolding statsBlock_record [OF b(1)] acc'_def tx_def [symmetric] cl_def [symmetric] ha_def [symmetric]
    using b(2) by (simp only: e1 e2 e3 e4 if_True)
  have p3: "\<bar>totalTransactions acc'\<bar> + (\<Sum>b\<leftarrow>bs. \<bar>numberField b ''hyperEVMTxns''\<bar>) \<le> 2 ^ 53"
    unfolding sel stx_def [symmetric] B_def [symmetric] using q3 by linarith
  have p4: "\<bar>totalCrossLayerCalls acc'\<bar> + (\<Sum>b\<leftarrow>bs. \<bar>numberField b ''crossLayerCalls''\<bar>) \<le> 2 ^ 53"
    unfolding sel scl_def [symmetric] B_def [symmetric] using q4 by linarith
  have p5: "\<bar>totalHyperCoreActions acc'\<bar> + (\<Sum>b\<leftarrow>bs. \<bar>numberField b ''hyperCoreActions''\<bar>) \<le> 2 ^ 53"
    unfolding sel sha_def [symmetric] B_def [symmetric] using q5 by linarith
  have p6: "0 \<le> processedBlocks acc'" unfolding sel using q6 by linarith
  have p7: "processedBlocks acc' + int (length bs) \<le> 2 ^ 53"
    unfolding sel B_def [symmetric] using q7 by linarith
  have "statsBlocks acc (b # bs) = statsBlocks acc' bs"
    by (simp add: s bindE_def)
  also note Cons.IH [OF bs p3 p4 p5 p6 p7]
  finally show ?case
    unfolding sel by (simp add: tx_def cl_def ha_def add.assoc)
qed

lemma statsBlocks_records:
  assumes "list_all blockRecord bs" and "safeTotals (filter activeRecord bs)"
  shows "statsBlocks zeroTotals bs =
     Inr \<lparr>totalTransactions = (\<Sum>b\<leftarrow>filter activeRecord bs. numberField b ''hyperEVMTxns''),
          totalCrossLayerCalls = (\<Sum>b\<leftarrow>filter activeRecord bs. numberField b ''crossLayerCalls''),
          totalGasUsed = (\<Sum>b\<leftarrow>filter activeRecord bs. gasField b),
          totalHyperCoreActions = (\<Sum>b\<leftarrow>filter activeRecord bs. numberField b ''hyperCoreActions''),
          processedBlocks = int (length (filter activeRecord bs))\<rparr>"
proof -
  let ?as = "filter activeRecord bs"
  have a: "list_all activeRecord ?as" "list_all blockRecord ?as"
    using assms(1) by (simp_all add: list_all_iff)
  from assms(2) have s:
    "\<bar>totalTransactions zeroTotals\<bar> + (\<Sum>b\<leftarrow>?as. \<bar>numberField b ''hyperEVMTxns''\<bar>) \<le> 2 ^ 53"
    "\<bar>totalCrossLayerCalls zeroTotals\<bar> + (\<Sum>b\<leftarrow>?as. \<bar>numberField b ''crossLayerCalls''\<bar>) \<le> 2 ^ 53"
    "\<bar>totalHyperCoreActions zeroTotals\<bar> + (\<Sum>b\<leftarrow>?as. \<bar>numberField b ''hyperCoreActions''\<bar>) \<le> 2 ^ 53"
    "0 \<le> processedBlocks zeroTotals" "processedBlocks zeroTotals + int (length ?as) \<le> 2 ^ 53"
    by (simp_all add: safeTotals_def safeCounter_def zeroTotals_def)
  have "statsBlocks zeroTotals bs = statsBlocks zeroTotals ?as"
    by (rule statsBlocks_filter [OF assms(1)])
  also note statsBlocks_safe [OF a s]
  finally show ?thesis by (simp add: zeroTotals_def)
qed

text \<open>
  C3. The fold of \<^verbatim>\<open>/api/stats\<close> accumulates \<^verbatim>\<open>totalTransactions\<close>, \<^verbatim>\<open>totalCrossLayerCalls\<close>,
  \<^verbatim>\<open>totalHyperCoreActions\<close>, \<^verbatim>\<open>totalGasUsed\<close> and \<^verbatim>\<open>processedBlocks\<close> only over the
  normalized records whose \<^verbatim>\<open>hyperEVMTxns\<close> is strictly greater than zero. Over block
  records, the fold over all records is the fold over those records alone, and a record
  whose \<^verbatim>\<open>hyperEVMTxns\<close> is zero, negative or missing leaves every total as it was. While
  the counters of the included records stay in the range where the runtime's numbers hold
  every integer (up to \<open>2^53\<close>), each total is the sum of the field over exactly those
  records, a missing field counting as zero, and \<^verbatim>\<open>processedBlocks\<close> is their number.
\<close>

theorem stats_only_active_records:
  assumes "list_all blockRecord (concat (map (parseBlockData jsonParse) rows))"
  shows "statsRows jsonParse zeroTotals rows
       = statsBlocks zeroTotals (filter activeRecord (concat (map (parseBlockData jsonParse) rows)))
     \<and> (\<forall>acc b. blockRecord b \<and> numberField b ''hyperEVMTxns'' \<le> 0 \<longrightarrow> statsBlock acc b = Inr acc)
     \<and> (safeTotals (filter activeRecord (concat (map (parseBlockData jsonParse) rows))) \<longrightarrow>
         statsRows jsonParse zeroTotals rows =
           Inr \<lparr>totalTransactions =
                  (\<Sum>b\<leftarrow>filter activeRecord (concat (map (parseBlockData jsonParse) rows)). numberField b ''hyperEVMTxns''),
                totalCrossLayerCalls =
                  (\<Sum>b\<leftarrow>filter activeRecord (concat (map (parseBlockData jsonParse) rows)). numberField b ''crossLayerCalls''),
                totalGasUsed =
                  (\<Sum>b\<leftarrow>filter activeRecord (concat (map (parseBlockData jsonParse) rows)). gasField b),
                totalHyperCoreActions =
                  (\<Sum>b\<leftarrow>filter activeRecord (concat (map (parseBlockData jsonParse) rows)). numberField b ''hyperCoreActions''),
                processedBlocks =
                  int (length (filter activeRecord (concat (map (parseBlockData jsonParse) rows))))\<rparr>)"
proof -
  let ?all = "concat (map (parseBlockData jsonParse) rows)"
  have f: "statsRows jsonParse zeroTotals rows = statsBlocks zeroTotals (filter activeRecord ?all)"
    using statsBlocks_filter [OF assms] by (simp add: statsRows_concat)
  have i: "statsBlock acc b = Inr acc" if "blockRecord b \<and> numberField b ''hyperEVMTxns'' \<le> 0" for acc b
    using that by (simp add: statsBlock_record activeRecord_def)
  have e: "statsRows jsonParse zeroTotals rows =
           Inr \<lparr>totalTransactions = (\<Sum>b\<leftarrow>filter activeRecord ?all. numberField b ''hyperEVMTxns''),
                totalCrossLayerCalls = (\<Sum>b\<leftarrow>filter activeRecord ?all. numberField b ''crossLayerCalls''),
                totalGasUsed = (\<Sum>b\<leftarrow>filter activeRecord ?all. gasField b),
                totalHyperCoreActions = (\<Sum>b\<leftarrow>filter activeRecord ?all. numberField b ''hyperCoreActions''),
                processedBlocks = int (length (filter activeRecord ?all))\<rparr>"
    if "safeTotals (filter activeRecord ?all)"
    using statsBlocks_records [OF assms that] by (simp add: statsRows_concat)
  from f i e show ?thesis by blast
qed

theorem stats_only_active_records_witness:
  "list_all blockRecord (concat (map (parseBlockData (\<lambda>s. None))
      [JArr [JObj [(''blockNumber'', JNum 10), (''hyperEVMTxns'', JNum 3), (''crossLayerCalls'', JNum 1),
                   (''gasUsed'', JStr ''100'')],
             JObj [(''blockNumber'', JNum 11), (''hyperEVMTxns'', JNum 0), (''crossLayerCalls'', JNum 5),
                   (''hyperCoreActions'', JNum 9), (''gasUsed'', JStr ''7'')]],
       JObj [(''blockNumber'', JNum 12), (''hyperEVMTxns'', JNum 2)]]))
   \<and> safeTotals (filter activeRecord (concat (map (parseBlockData (\<lambda>s. None))
      [JArr [JObj [(''blockNumber'', JNum 10), (''hyperEVMTxns'', JNum 3), (''crossLayerCalls'', JNum 1),
                   (''gasUsed'', JStr ''100'')],
             JObj [(''blockNumber'', JNum 11), (''hyperEVMTxns'', JNum 0), (''crossLayerCalls'', JNum 5),
                   (''hyperCoreActions'', JNum 9), (''gasUsed'', JStr ''7'')]],
       JObj [(''blockNumber'', JNum 12), (''hyperEVMTxns'', JNum 2)]])))
   \<and> statsRows (\<lambda>s. None) zeroTotals
      [JArr [JObj [(''blockNumber'', JNum 10), (''hyperEVMTxns'', JNum 3), (''crossLayerCalls'', JNum 1),
                   (''gasUsed'', JStr ''100'')],
             JObj [(''blockNumber'', JNum 11), (''hyperEVMTxns'', JNum 0), (''crossLayerCalls'', JNum 5),
                   (''hyperCoreActions'', JNum 9), (''gasUsed'', JStr ''7'')]],
       JObj [(''blockNumber'', JNum 12), (''hyperEVMTxns'', JNum 2)]]
     = Inr \<lparr>totalTransactions = 5, totalCrossLayerCalls = 1, totalGasUsed = 100,
            totalHyperCoreActions = 0, processedBlocks = 2\<rparr>
   \<and> statsBlock zeroTotals
        (JObj [(''blockNumber'', JNum 11), (''hyperEVMTxns'', JNum 0), (''crossLayerCalls'', JNum 5),
               (''hyperCoreActions'', JNum 9), (''gasUsed'', JStr ''7'')]) = Inr zeroTotals"
proof -
  let ?b1 = "JObj [(''blockNumber'', JNum 10), (''hyperEVMTxns'', JNum 3), (''crossLayerCalls'', JNum 1),
                   (''gasUsed'', JStr ''100'')]"
  let ?b2 = "JObj [(''blockNumber'', JNum 11), (''hyperEVMTxns'', JNum 0), (''crossLayerCalls'', JNum 5),
                   (''hyperCoreActions'', JNum 9), (''gasUsed'', JStr ''7'')]"
  let ?b3 = "JObj [(''blockNumber'', JNum 12), (''hyperEVMTxns'', JNum 2)]"
  let ?rows = "[JArr [?b1, ?b2], ?b3]"
  let ?all = "concat (map (parseBlockData (\<lambda>s. None)) ?rows)"
  have h: "list_all blockRecord ?all" by code_simp
  have s: "safeTotals (filter activeRecord ?all)" by code_simp
  have v1: "(\<Sum>b\<leftarrow>filter activeRecord ?all. numberField b ''hyperEVMTxns'') = 5" by code_simp
  have v2: "(\<Sum>b\<leftarrow>filter activeRecord ?all. numberField b ''crossLayerCalls'') = 1" by code_simp
  have v3: "(\<Sum>b\<leftarrow>filter activeRecord ?all. gasField b) = 100" by code_simp
  have v4: "(\<Sum>b\<leftarrow>filter activeRecord ?all. numberField b ''hyperCoreActions'') = 0" by code_simp
  have v5: "int (length (filter activeRecord ?all)) = 2" by code_simp
  have r: "blockRecord ?b2 \<and> numberField ?b2 ''hyperEVMTxns'' \<le> 0" by code_simp
  note t = stats_only_active_records [OF h]
  from t s have "statsRows (\<lambda>s. None) zeroTotals ?rows =
     Inr \<lparr>totalTransactions = (\<Sum>b\<leftarrow>filter activeRecord ?all. numberField b ''hyperEVMTxns''),
          totalCrossLayerCalls = (\<Sum>b\<leftarrow>filter activeRecord ?all. numberField b ''crossLayerCalls''),
          totalGasUsed = (\<Sum>b\<leftarrow>filter activeRecord ?all. gasField b),
          totalHyperCoreActions = (\<Sum>b\<leftarrow>filter activeRecord ?all. numberField b ''hyperCoreActions''),
          processedBlocks = int (length (filter activeRecord ?all))\<rparr>"
    by blast
  then have e: "statsRows (\<lambda>s. None) zeroTotals ?rows =
     Inr \<lparr>totalTransactions = 5, totalCrossLayerCalls = 1, totalGasUsed = 100,
            totalHyperCoreActions = 0, processedBlocks = 2\<rparr>"
    unfolding v1 v2 v3 v4 v5 .
  from t have "statsBlock zeroTotals ?b2 = Inr zeroTotals" using r by blast
  with e h s show ?thesis by blast
qed

lemma api_stats_records:
  assumes "list_all blockRecord (concat (map (parseBlockData jsonParse) rows))"
  shows "\<exists>t. api_stats jsonParse (Inr stats) (Inr rows) = Json200 (statsBody stats t)
     \<and> statsRows jsonParse zeroTotals rows = Inr t
     \<and> totalGasUsed t = (\<Sum>b\<leftarrow>filter activeRecord (concat (map (parseBlockData jsonParse) rows)). gasField b)"
proof -
  from statsBlocks_gas [OF assms, of zeroTotals] obtain t where
    "statsBlocks zeroTotals (concat (map (parseBlockData jsonParse) rows)) = Inr t"
    "totalGasUsed t = (\<Sum>b\<leftarrow>filter activeRecord (concat (map (parseBlockData jsonParse) rows)). gasField b)"
    by (auto simp: zeroTotals_def)
  then show ?thesis by (simp add: api_stats_def statsRows_concat)
qed

lemma replyField_statsBody_gas:
  "replyField (Json200 (statsBody stats t)) ''totalGasUsed'' = Some (JStr (bigintToString (totalGasUsed t)))"
  by (simp add: replyField_def statsBody_def)

text \<open>
  C6. The gas total is exact integer arithmetic at every step. Each \<^verbatim>\<open>gasUsed\<close> text is read
  by \<^verbatim>\<open>BigInt\<close> as the integer it denotes, whatever its size (the decimal text of any
  integer is read back as that integer), the total is the integer sum of the values of
  the active records, and the reply carries the decimal text of that sum. For two
  records with \<^verbatim>\<open>gasUsed\<close> \<open>2^64\<close> the reply says \<open>2^65\<close>, digit for digit.
\<close>

theorem gas_total_exact:
  "(list_all blockRecord (concat (map (parseBlockData jsonParse) rows)) \<longrightarrow>
      replyField (api_stats jsonParse (Inr stats) (Inr rows)) ''totalGasUsed'' =
        Some (JStr (bigintToString
          (\<Sum>b\<leftarrow>filter activeRecord (concat (map (parseBlockData jsonParse) rows)). gasField b))))
   \<and> StringToBigInt (bigintToString g) = Some g
   \<and> gasField (JObj [(''gasUsed'', JStr (bigintToString g))]) = g
   \<and> bigintToString (2 ^ 64) = ''18446744073709551616''
   \<and> bigintToString (2 ^ 65) = ''36893488147419103232''
   \<and> replyField
        (api_stats (\<lambda>s. None) (Inr \<lparr>total_records = Some ''1'', first_block = Some ''1'', last_block = Some ''2''\<rparr>)
          (Inr [JArr [JObj [(''blockNumber'', JNum 1), (''hyperEVMTxns'', JNum 1),
                            (''gasUsed'', JStr ''18446744073709551616'')],
                      JObj [(''blockNumber'', JNum 2), (''hyperEVMTxns'', JNum 1),
                            (''gasUsed'', JStr ''18446744073709551616'')]]]))
        ''totalGasUsed'' = Some (JStr ''36893488147419103232'')"
proof (intro conjI impI)
  assume a: "list_all blockRecord (concat (map (parseBlockData jsonParse) rows))"
  from api_stats_records [OF a, of stats]
  show "replyField (api_stats jsonParse (Inr stats) (Inr rows)) ''totalGasUsed'' =
        Some (JStr (bigintToString
          (\<Sum>b\<leftarrow>filter activeRecord (concat (map (parseBlockData jsonParse) rows)). gasField b)))"
    by (auto simp: replyField_statsBody_gas)
next
  show "StringToBigInt (bigintToString g) = Some g"
    by (rule StringToBigInt_bigintToString)
next
  show "gasField (JObj [(''gasUsed'', JStr (bigintToString g))]) = g"
    by (simp add: gasField_def StringToBigInt_bigintToString)
next
  show "bigintToString (2 ^ 64) = ''18446744073709551616''" by code_simp
next
  show "bigintToString (2 ^ 65) = ''36893488147419103232''" by code_simp
next
  let ?rows = "[JArr [JObj [(''blockNumber'', JNum 1), (''hyperEVMTxns'', JNum 1),
                            (''gasUsed'', JStr ''18446744073709551616'')],
                      JObj [(''blockNumber'', JNum 2), (''hyperEVMTxns'', JNum 1),
                            (''gasUsed'', JStr ''18446744073709551616'')]]]"
  have a: "list_all blockRecord (concat (map (parseBlockData (\<lambda>s. None)) ?rows))" by code_simp
  have v: "bigintToString (\<Sum>b\<leftarrow>filter activeRecord (concat (map (parseBlockData (\<lambda>s. None)) ?rows)). gasField b)
      = ''36893488147419103232''" by code_simp
  from api_stats_records [OF a, of "\<lparr>total_records = Some ''1'', first_block = Some ''1'', last_block = Some ''2''\<rparr>"]
  show "replyField
        (api_stats (\<lambda>s. None) (Inr \<lparr>total_records = Some ''1'', first_block = Some ''1'', last_block = Some ''2''\<rparr>)
          (Inr ?rows)) ''totalGasUsed'' = Some (JStr ''36893488147419103232'')"
    unfolding v [symmetric] by (auto simp: replyField_statsBody_gas)
qed

theorem gas_total_exact_witness:
  "list_all blockRecord (concat (map (parseBlockData (\<lambda>s. None))
      [JObj [(''blockNumber'', JNum 1), (''hyperEVMTxns'', JNum 4),
             (''gasUsed'', JStr ''340282366920938463463374607431768211456'')],
       JObj [(''blockNumber'', JNum 2), (''hyperEVMTxns'', JNum 1), (''gasUsed'', JStr ''1'')]]))
   \<and> replyField
        (api_stats (\<lambda>s. None) (Inr \<lparr>total_records = Some ''2'', first_block = Some ''1'', last_block = Some ''2''\<rparr>)
          (Inr [JObj [(''blockNumber'', JNum 1), (''hyperEVMTxns'', JNum 4),
                      (''gasUsed'', JStr ''340282366920938463463374607431768211456'')],
                JObj [(''blockNumber'', JNum 2), (''hyperEVMTxns'', JNum 1), (''gasUsed'', JStr ''1'')]]))
        ''totalGasUsed'' = Some (JStr ''340282366920938463463374607431768211457'')
   \<and> StringToBigInt ''340282366920938463463374607431768211456'' = Some (2 ^ 128)"
proof -
  let ?rows = "[JObj [(''blockNumber'', JNum 1), (''hyperEVMTxns'', JNum 4),
             (''gasUsed'', JStr ''340282366920938463463374607431768211456'')],
       JObj [(''blockNumber'', JNum 2), (''hyperEVMTxns'', JNum 1), (''gasUsed'', JStr ''1'')]]"
  have a: "list_all blockRecord (concat (map (parseBlockData (\<lambda>s. None)) ?rows))" by code_simp
  have v: "bigintToString (\<Sum>b\<leftarrow>filter activeRecord (concat (map (parseBlockData (\<lambda>s. None)) ?rows)). gasField b)
      = ''340282366920938463463374607431768211457''" by code_simp
  have p: "StringToBigInt ''340282366920938463463374607431768211456'' = Some (2 ^ 128)" by code_simp
  note t = gas_total_exact [where jsonParse = "\<lambda>s. None" and rows = ?rows
      and stats = "\<lparr>total_records = Some ''2'', first_block = Some ''1'', last_block = Some ''2''\<rparr>",
      THEN conjunct1, rule_format, OF a, unfolded v]
  from t a p show ?thesis by blast
qed

section \<open>Properties of the merger\<close>

lemma flattenRows_concat: "flattenRows jsonParse rows = concat (map (parseBlockData jsonParse) rows)"
proof -
  have "foldl (\<lambda>allBlocks row. allBlocks @ parseBlockData jsonParse row) acc rows
      = acc @ concat (map (parseBlockData jsonParse) rows)" for acc
    by (induction rows arbitrary: acc) simp_all
  then show ?thesis by (simp add: flattenRows_def)
qed

lemma sortByBlockNumber_numbered:
  assumes "list_all (\<lambda>b. sortKey b \<noteq> None) bs"
  shows "sortByBlockNumber bs = Inr (sort_key (\<lambda>b. - blockNumberOf b) bs)"
proof (cases "length bs < 2")
  case True
  then have "bs = [] \<or> (\<exists>b. bs = [b])"
    by (cases bs) (auto simp: less_Suc_eq_0_disj)
  then show ?thesis using True by (auto simp: sortByBlockNumber_def)
next
  case False
  moreover have "JNull \<notin> set bs"
    using assms by (auto simp: list_all_iff)
  ultimately show ?thesis using assms
    by (simp add: sortByBlockNumber_def blockNumberOf_def [abs_def])
qed

lemma sorted_desc_sort_key:
  "sorted_wrt (\<lambda>a b. blockNumberOf b \<le> blockNumberOf a) (sort_key (\<lambda>b. - blockNumberOf b) bs)"
proof -
  have "sorted (map (\<lambda>b. - blockNumberOf b) (sort_key (\<lambda>b. - blockNumberOf b) bs))"
    by (rule sorted_sort_key)
  then show ?thesis by (simp add: sorted_map)
qed

lemma filter_take_prefix: "prefix (filter P (take n xs)) (filter P xs)"
proof -
  have "filter P xs = filter P (take n xs) @ filter P (drop n xs)"
    by (metis append_take_drop_id filter_append)
  then show ?thesis by (metis prefixI)
qed

lemma same_number_stable:
  "filter (\<lambda>b. blockNumberOf b = k) (sort_key (\<lambda>b. - blockNumberOf b) bs)
     = filter (\<lambda>b. blockNumberOf b = k) bs"
  using sort_key_stable [of "\<lambda>b. - blockNumberOf b" "- k" bs] by simp

text \<open>
  C1 (amended). The recent-blocks reply holds every record of every row: nothing is
  removed for sharing a block number with another record. Over rows whose records carry a
  numeric \<^verbatim>\<open>blockNumber\<close>, the reply is the first 20 records of the stable sort by
  descending block number of all normalized records in row order: it is sorted in
  non-increasing block number, the records of one block number stand in source order (the
  earlier-processed row's first), and when no more than 20 records are loaded all of them
  are in the reply.
\<close>

theorem recent_sorted_keeps_all:
  assumes "list_all (\<lambda>b. sortKey b \<noteq> None) (concat (map (parseBlockData jsonParse) rows))"
  shows "\<exists>result.
     api_blocks_recent jsonParse (Inr rows) = Json200 (JArr result)
     \<and> result = take 20 (sort_key (\<lambda>b. - blockNumberOf b) (concat (map (parseBlockData jsonParse) rows)))
     \<and> length result = min 20 (length (concat (map (parseBlockData jsonParse) rows)))
     \<and> sorted_wrt (\<lambda>a b. blockNumberOf b \<le> blockNumberOf a) result
     \<and> (\<forall>k. prefix (filter (\<lambda>b. blockNumberOf b = k) result)
               (filter (\<lambda>b. blockNumberOf b = k) (concat (map (parseBlockData jsonParse) rows))))
     \<and> (length (concat (map (parseBlockData jsonParse) rows)) \<le> 20 \<longrightarrow>
          (\<forall>k. filter (\<lambda>b. blockNumberOf b = k) result
               = filter (\<lambda>b. blockNumberOf b = k) (concat (map (parseBlockData jsonParse) rows))))"
proof -
  let ?all = "concat (map (parseBlockData jsonParse) rows)"
  let ?sorted = "sort_key (\<lambda>b. - blockNumberOf b) ?all"
  have r: "api_blocks_recent jsonParse (Inr rows) = Json200 (JArr (take 20 ?sorted))"
    by (simp add: api_blocks_recent_def flattenRows_concat sortByBlockNumber_numbered [OF assms])
  have l: "length (take 20 ?sorted) = min 20 (length ?all)" by simp
  have s: "sorted_wrt (\<lambda>a b. blockNumberOf b \<le> blockNumberOf a) (take 20 ?sorted)"
    using sorted_desc_sort_key [of ?all] by (rule sorted_wrt_take)
  have p: "prefix (filter (\<lambda>b. blockNumberOf b = k) (take 20 ?sorted))
               (filter (\<lambda>b. blockNumberOf b = k) ?all)" for k
    using filter_take_prefix [of "\<lambda>b. blockNumberOf b = k" 20 ?sorted]
    by (simp add: same_number_stable)
  have e: "filter (\<lambda>b. blockNumberOf b = k) (take 20 ?sorted)
               = filter (\<lambda>b. blockNumberOf b = k) ?all" if "length ?all \<le> 20" for k
    using that by (simp add: same_number_stable)
  from r l s p e show ?thesis by blast
qed

theorem recent_sorted_keeps_all_witness:
  "list_all (\<lambda>b. sortKey b \<noteq> None) (concat (map (parseBlockData undecodable)
      [JArr [JObj [(''blockNumber'', JNum 7), (''hyperEVMTxns'', JNum 1)], JObj [(''blockNumber'', JNum 9)]],
       JObj [(''blockNumber'', JNum 7), (''hyperEVMTxns'', JNum 2)],
       JObj [(''blocks'', JArr [JObj [(''blockNumber'', JNum 8)]])]]))
   \<and> api_blocks_recent undecodable (Inr
      [JArr [JObj [(''blockNumber'', JNum 7), (''hyperEVMTxns'', JNum 1)], JObj [(''blockNumber'', JNum 9)]],
       JObj [(''blockNumber'', JNum 7), (''hyperEVMTxns'', JNum 2)],
       JObj [(''blocks'', JArr [JObj [(''blockNumber'', JNum 8)]])]])
     = Json200 (JArr [JObj [(''blockNumber'', JNum 9)], JObj [(''blockNumber'', JNum 8)],
                      JObj [(''blockNumber'', JNum 7), (''hyperEVMTxns'', JNum 1)],
                      JObj [(''blockNumber'', JNum 7), (''hyperEVMTxns'', JNum 2)]])"
proof -
  let ?rows = "[JArr [JObj [(''blockNumber'', JNum 7), (''hyperEVMTxns'', JNum 1)], JObj [(''blockNumber'', JNum 9)]],
       JObj [(''blockNumber'', JNum 7), (''hyperEVMTxns'', JNum 2)],
       JObj [(''blocks'', JArr [JObj [(''blockNumber'', JNum 8)]])]]"
  have h: "list_all (\<lambda>b. sortKey b \<noteq> None) (concat (map (parseBlockData undecodable) ?rows))"
    by code_simp
  have v: "take 20 (sort_key (\<lambda>b. - blockNumberOf b) (concat (map (parseBlockData undecodable) ?rows)))
      = [JObj [(''blockNumber'', JNum 9)], JObj [(''blockNumber'', JNum 8)],
         JObj [(''blockNumber'', JNum 7), (''hyperEVMTxns'', JNum 1)],
         JObj [(''blockNumber'', JNum 7), (''hyperEVMTxns'', JNum 2)]]"
    by code_simp
  from recent_sorted_keeps_all [OF h] obtain result where
    "api_blocks_recent undecodable (Inr ?rows) = Json200 (JArr result)"
    "result = take 20 (sort_key (\<lambda>b. - blockNumberOf b) (concat (map (parseBlockData undecodable) ?rows)))"
    by blast
  with v h show ?thesis by simp
qed

text \<open>
  The claim as stated fails. Two rows hold a record for block 105 each (the second example
  of the specification): both records are in the reply, so the block number is there twice
  and the order is not strict.
\<close>

theorem recent_keeps_duplicates_counterexample:
  "api_blocks_recent undecodable
     (Inr [JArr [JObj [(''blockNumber'', JNum 105), (''hyperEVMTxns'', JNum 9)],
                 JObj [(''blockNumber'', JNum 110)]],
           JArr [JObj [(''blockNumber'', JNum 100)], JObj [(''blockNumber'', JNum 101)],
                 JObj [(''blockNumber'', JNum 105), (''hyperEVMTxns'', JNum 4)]]])
     = Json200 (JArr [JObj [(''blockNumber'', JNum 110)],
                      JObj [(''blockNumber'', JNum 105), (''hyperEVMTxns'', JNum 9)],
                      JObj [(''blockNumber'', JNum 105), (''hyperEVMTxns'', JNum 4)],
                      JObj [(''blockNumber'', JNum 101)], JObj [(''blockNumber'', JNum 100)]])
   \<and> map blockNumberOf [JObj [(''blockNumber'', JNum 110)],
                      JObj [(''blockNumber'', JNum 105), (''hyperEVMTxns'', JNum 9)],
                      JObj [(''blockNumber'', JNum 105), (''hyperEVMTxns'', JNum 4)],
                      JObj [(''blockNumber'', JNum 101)], JObj [(''blockNumber'', JNum 100)]]
       = [110, 105, 105, 101, 100]
   \<and> \<not> distinct [110, 105, 105, 101, 100 :: int]"
  by code_simp

section \<open>Properties of the price series\<close>

lemma getHypePrice_fails: "oracleFails callOutcome \<Longrightarrow> getHypePrice callOutcome = fallbackPrice"
  by (auto simp: oracleFails_def getHypePrice_def getHypePrice_try_def bindE_def
           split: sum.splits)

text \<open>
  C7. Whenever the oracle call fails (the provider throws for a network error or a
  revert, the returned text does not decode, or the decoded value does not fit a number),
  \<^verbatim>\<open>getHypePrice\<close> returns the fallback price, which is the constant 48; it returns a
  number on every outcome, so no exception reaches its caller. When every call of a run
  fails, every call returns that same value.
\<close>

theorem getHypePrice_fallback:
  "(callOutcome = Inl e \<longrightarrow> getHypePrice callOutcome = fallbackPrice)
   \<and> (callOutcome = Inr result \<and> BigNumber_from result = Inl e1 \<longrightarrow> getHypePrice callOutcome = fallbackPrice)
   \<and> (callOutcome = Inr result \<and> BigNumber_from result = Inr priceRaw
        \<and> BigNumber_toNumber priceRaw = Inl e2 \<longrightarrow> getHypePrice callOutcome = fallbackPrice)
   \<and> (oracleFails callOutcome \<longrightarrow> getHypePrice callOutcome = fallbackPrice)
   \<and> (list_all oracleFails outcomes \<longrightarrow>
        map getHypePrice outcomes = replicate (length outcomes) fallbackPrice)
   \<and> fallbackPrice = 48"
proof -
  have "map getHypePrice outcomes = replicate (length outcomes) fallbackPrice"
    if "list_all oracleFails outcomes"
    using that by (induction outcomes) (simp_all add: getHypePrice_fails)
  then show ?thesis
    by (auto simp: getHypePrice_fails oracleFails_def fallbackPrice_def)
qed


theorem getHypePrice_fallback_witness:
  "getHypePrice (Inl NetworkError) = 48
   \<and> getHypePrice (Inr ''0x'') = 48
   \<and> getHypePrice (Inr ''0xffffffffffffffffffffffffffffffffffffffffffffffffffffffffffffffff'') = 48
   \<and> list_all oracleFails [Inl CallException, Inr ''reverted'', Inl NetworkError]
   \<and> map getHypePrice [Inl CallException, Inr ''reverted'', Inl NetworkError] = [48, 48, 48]"
proof -
  note t = getHypePrice_fallback
  have c1: "getHypePrice (Inl NetworkError) = 48"
    using t [where callOutcome = "Inl NetworkError" and e = NetworkError] by simp
  have d2: "BigNumber_from ''0x'' = Inl InvalidArgument" by code_simp
  have c2: "getHypePrice (Inr ''0x'') = 48"
    using t [where callOutcome = "Inr ''0x''" and result = "''0x''" and ?e1.0 = InvalidArgument] d2
    by simp
  have d3: "BigNumber_from ''0xffffffffffffffffffffffffffffffffffffffffffffffffffffffffffffffff'' = Inr (2 ^ 256 - 1)"
    by code_simp
  have d3': "BigNumber_toNumber (2 ^ 256 - 1) = Inl NumericFault" by code_simp
  have c3: "getHypePrice (Inr ''0xffffffffffffffffffffffffffffffffffffffffffffffffffffffffffffffff'') = 48"
    using t [where callOutcome = "Inr ''0xffffffffffffffffffffffffffffffffffffffffffffffffffffffffffffffff''"
        and result = "''0xffffffffffffffffffffffffffffffffffffffffffffffffffffffffffffffff''"
        and priceRaw = "2 ^ 256 - 1" and ?e2.0 = NumericFault] d3 d3'
    by simp
  have h: "list_all oracleFails [Inl CallException, Inr ''reverted'', Inl NetworkError]"
    by code_simp
  have c4: "map getHypePrice [Inl CallException, Inr ''reverted'', Inl NetworkError] = [48, 48, 48]"
    using t [where outcomes = "[Inl CallException, Inr ''reverted'', Inl NetworkError]"] h
    by (simp add: numeral_3_eq_3)
  from c1 c2 c3 h c4 show ?thesis by blast
qed

lemma appendSample_length: "length (appendSample prev t p) = min 30 (length prev + 1)"
  by (simp add: appendSample_def Let_def)

lemma appendSample_short:
  "length prev < 30 \<Longrightarrow> appendSample prev t p = prev @ [\<lparr>time = t, price = p\<rparr>]"
  by (simp add: appendSample_def Let_def)

lemma appendSample_full:
  "length prev = 30 \<Longrightarrow> appendSample prev t p = tl prev @ [\<lparr>time = t, price = p\<rparr>]"
  by (cases prev) (simp_all add: appendSample_def Let_def)

lemma appendSample_lastSamples:
  "appendSample (lastSamples series) t p = lastSamples (series @ [\<lparr>time = t, price = p\<rparr>])"
proof -
  have "length series - (length series - 30 + 29) + (length series - 30) = length series - 29"
    by arith
  then show ?thesis by (simp add: appendSample_def lastSamples_def Let_def)
qed

lemma appendAll_lastSamples:
  "appendAll (lastSamples series) samples
     = lastSamples (series @ map (\<lambda>(t, p). \<lparr>time = t, price = p\<rparr>) samples)"
proof (induction samples arbitrary: series)
  case Nil
  then show ?case by simp
next
  case (Cons s samples)
  obtain t p where s: "s = (t, p)" by (cases s)
  show ?case
    using Cons.IH [of "series @ [\<lparr>time = t, price = p\<rparr>]"]
    by (simp add: s appendSample_lastSamples)
qed

lemma lastSamples_id: "length series \<le> 30 \<Longrightarrow> lastSamples series = series"
  by (simp add: lastSamples_def)

text \<open>
  C8. The history window keeps at most 30 samples in the order they were appended. From a
  series of at most 30 samples, appending one gives a series of at most 30: below 30 it is
  the old series with the sample at the end, at 30 it is the old series without its first
  (oldest) sample and with the new one at the end. After any run of appends the history is
  the last 30 of all the samples in append order.
\<close>

theorem appendSample_window:
  assumes "length prev \<le> 30"
  shows "length (appendSample prev t p) \<le> 30
    \<and> length (appendSample prev t p) = min 30 (length prev + 1)
    \<and> (length prev < 30 \<longrightarrow> appendSample prev t p = prev @ [\<lparr>time = t, price = p\<rparr>])
    \<and> (length prev = 30 \<longrightarrow> appendSample prev t p = tl prev @ [\<lparr>time = t, price = p\<rparr>])
    \<and> appendAll prev samples
         = lastSamples (prev @ map (\<lambda>(t, p). \<lparr>time = t, price = p\<rparr>) samples)
    \<and> length (appendAll prev samples) = min 30 (length prev + length samples)"
proof -
  have a: "appendAll prev samples
         = lastSamples (prev @ map (\<lambda>(t, p). \<lparr>time = t, price = p\<rparr>) samples)"
    using appendAll_lastSamples [of prev samples] lastSamples_id [OF assms] by simp
  have "length (appendAll prev samples) = min 30 (length prev + length samples)"
    unfolding a by (simp add: lastSamples_def)
  with a show ?thesis
    by (simp add: appendSample_length appendSample_short appendSample_full)
qed


theorem appendSample_window_witness:
  "length [\<lparr>time = ''12:00:00'', price = 48\<rparr>] \<le> 30
   \<and> appendSample [\<lparr>time = ''12:00:00'', price = 48\<rparr>] ''12:00:05'' 47
       = [\<lparr>time = ''12:00:00'', price = 48\<rparr>, \<lparr>time = ''12:00:05'', price = 47\<rparr>]
   \<and> length (replicate 30 \<lparr>time = ''12:00:00'', price = 48\<rparr>) \<le> 30
   \<and> appendSample (replicate 30 \<lparr>time = ''12:00:00'', price = 48\<rparr>) ''12:00:05'' 47
       = replicate 29 \<lparr>time = ''12:00:00'', price = 48\<rparr> @ [\<lparr>time = ''12:00:05'', price = 47\<rparr>]"
proof -
  have h1: "length [\<lparr>time = ''12:00:00'', price = 48\<rparr>] \<le> 30" by simp
  have h2: "length (replicate 30 \<lparr>time = ''12:00:00'', price = 48\<rparr>) \<le> 30" by simp
  have tl30: "tl (replicate 30 \<lparr>time = ''12:00:00'', price = 48\<rparr>)
      = replicate 29 \<lparr>time = ''12:00:00'', price = 48\<rparr>"
    by (simp add: tl_replicate)
  have c1: "appendSample [\<lparr>time = ''12:00:00'', price = 48\<rparr>] ''12:00:05'' 47
       = [\<lparr>time = ''12:00:00'', price = 48\<rparr>, \<lparr>time = ''12:00:05'', price = 47\<rparr>]"
    using appendSample_window [OF h1, of "''12:00:05''" 47 "[]"] by simp
  have c2: "appendSample (replicate 30 \<lparr>time = ''12:00:00'', price = 48\<rparr>) ''12:00:05'' 47
       = replicate 29 \<lparr>time = ''12:00:00'', price = 48\<rparr> @ [\<lparr>time = ''12:00:05'', price = 47\<rparr>]"
    using appendSample_window [OF h2, of "''12:00:05''" 47 "[]"] tl30 by simp
  from h1 h2 c1 c2 show ?thesis by blast
qed

section \<open>Properties of the point lookup\<close>

lemma isRadixDigit_decimal: "c \<in> set ''0123456789'' \<Longrightarrow> isRadixDigit 10 c"
  by (auto simp: isRadixDigit_def digitValue_def)

lemma parseDigits_decimalDigits:
  assumes "0 \<le> n"
  shows "parseDigits 10 (decimalDigits n) = Some n"
proof -
  have "\<forall>c \<in> set (decimalDigits n). isRadixDigit 10 c"
    using decimalDigits_chars [OF assms] isRadixDigit_decimal by blast
  then have tw: "takeWhile (isRadixDigit 10) (decimalDigits n) = decimalDigits n"
    by (simp add: takeWhile_eq_all_conv)
  show ?thesis
    unfolding parseDigits_def tw
    by (simp add: radixLiteral_def decimalDigits_nonempty digitsValue_decimalDigits [OF assms])
qed

lemma parseInt_decimalDigits:
  assumes "0 \<le> n"
  shows "parseInt (decimalDigits n) = numberOfInteger n"
proof -
  let ?t = "decimalDigits n"
  have chars: "set ?t \<subseteq> set ''0123456789''" by (rule decimalDigits_chars [OF assms])
  obtain c cs where t: "?t = c # cs" using decimalDigits_nonempty [of n] by (cases ?t) auto
  have c: "c \<in> set ''0123456789''" using chars t by auto
  have nohex: "(case ?t of c1 # c2 # r \<Rightarrow> c1 = CHR ''0'' \<and> (c2 = CHR ''x'' \<or> c2 = CHR ''X'') | _ \<Rightarrow> False) = False"
  proof (cases cs)
    case Nil
    with t show ?thesis by simp
  next
    case (Cons c2 r)
    then have "c2 \<in> set ''0123456789''" using chars t by auto
    from decimal_char_facts(4,5) [OF this] t Cons show ?thesis by simp
  qed
  have dw: "dropWhile isWhiteSpace ?t = ?t"
    using decimal_char_facts(1) [OF c] t by simp
  show ?thesis
    unfolding parseInt_def dw Let_def
    using decimal_char_facts(2,3) [OF c] t nohex parseDigits_decimalDigits [OF assms]
    by simp
qed

lemma parseInt_bigintToString: "parseInt (bigintToString n) = numberOfInteger n"
proof (cases "n < 0")
  case False
  then show ?thesis by (simp add: bigintToString_def parseInt_decimalDigits)
next
  case True
  let ?t = "decimalDigits (- n)"
  from True have pos: "0 \<le> - n" by simp
  have chars: "set ?t \<subseteq> set ''0123456789''" by (rule decimalDigits_chars [OF pos])
  obtain c cs where t: "?t = c # cs" using decimalDigits_nonempty [of "- n"] by (cases ?t) auto
  have c: "c \<in> set ''0123456789''" using chars t by auto
  have nohex: "(case ?t of c1 # c2 # r \<Rightarrow> c1 = CHR ''0'' \<and> (c2 = CHR ''x'' \<or> c2 = CHR ''X'') | _ \<Rightarrow> False) = False"
  proof (cases cs)
    case Nil
    with t show ?thesis by simp
  next
    case (Cons c2 r)
    then have "c2 \<in> set ''0123456789''" using chars t by auto
    from decimal_char_facts(4,5) [OF this] t Cons show ?thesis by simp
  qed
  have dw: "dropWhile isWhiteSpace (CHR ''-'' # ?t) = CHR ''-'' # ?t"
    by (simp add: isWhiteSpace_def)
  have "parseInt (CHR ''-'' # ?t) = numberOfInteger n"
    unfolding parseInt_def dw Let_def
    using nohex parseDigits_decimalDigits [OF pos]
    by simp
  with True show ?thesis by (simp add: bigintToString_def)
qed

lemma numberOfInteger_safe: "\<bar>n\<bar> \<le> 2 ^ 53 \<Longrightarrow> numberOfInteger n = Fin n"
proof -
  assume a: "\<bar>n\<bar> \<le> 2 ^ 53"
  have "(2::int) ^ 53 < 2 ^ 1024" by simp
  with a have "n < 2 ^ 1024" "- (2 ^ 1024) < n" by linarith+
  then show ?thesis using a by (simp add: numberOfInteger_def roundInteger_exact)
qed


lemma numberOfInteger_finite:
  assumes "\<bar>n\<bar> < 2 ^ 1023"
  shows "numberOfInteger n = Fin (roundInteger n)"
  using roundInteger_bound [OF assms] by (simp add: numberOfInteger_def Let_def abs_less_iff)

lemma avgGasPerTx_empty: "transactions b = [] \<Longrightarrow> avgGasPerTx b = Fin 0"
  by (simp add: avgGasPerTx_def)

lemma avgGasPerTx_safe:
  assumes "transactions b \<noteq> []" and "0 \<le> gasUsed b" and "gasUsed b < 2 ^ 53"
  shows "avgGasPerTx b = Fin (gasUsed b div int (length (transactions b)))"
proof -
  have "\<bar>gasUsed b\<bar> \<le> 2 ^ 53" using assms(2,3) by simp
  then have p: "parseInt (bigintToString (gasUsed b)) = Fin (gasUsed b)"
    by (simp only: parseInt_bigintToString numberOfInteger_safe)
  have l: "0 < int (length (transactions b))" using assms(1) by simp
  show ?thesis
    unfolding avgGasPerTx_def p
    using assms(1) l floor_quotient_exact [OF assms(2,3) l] by simp
qed

lemma avgGasPerTx_finite:
  assumes "0 \<le> gasUsed b" and "gasUsed b < 2 ^ 256"
  shows "\<exists>n. avgGasPerTx b = Fin n"
proof -
  have "(2::int) ^ 256 < 2 ^ 1023" by simp
  with assms have "\<bar>gasUsed b\<bar> < 2 ^ 1023" by linarith
  then have p: "parseInt (bigintToString (gasUsed b)) = Fin (roundInteger (gasUsed b))"
    by (simp only: parseInt_bigintToString numberOfInteger_finite)
  show ?thesis
    unfolding avgGasPerTx_def p by simp
qed

text \<open>
  C10. In the chain fallback of the point lookup the average gas per transaction is a
  guarded division: for a chain block without transactions it is 0 and no division takes
  place. For any other block it is the floor of the quotient of \<^verbatim>\<open>gasUsed\<close> by the number
  of transactions, as numbers of the runtime: the integer quotient while \<^verbatim>\<open>gasUsed\<close> is
  below \<open>2^53\<close>, and a finite number for every \<^verbatim>\<open>gasUsed\<close> of 256 bits, never NaN or an
  infinity. So the reply built from a block the chain returns carries a number there.
\<close>

theorem avgGasPerTx_guarded:
  "(transactions b = [] \<longrightarrow> avgGasPerTx b = Fin 0)
   \<and> (transactions b \<noteq> [] \<and> 0 \<le> gasUsed b \<and> gasUsed b < 2 ^ 53 \<longrightarrow>
        avgGasPerTx b = Fin (gasUsed b div int (length (transactions b))))
   \<and> (0 \<le> gasUsed b \<and> gasUsed b < 2 ^ 256 \<longrightarrow> (\<exists>n. avgGasPerTx b = Fin n))
   \<and> (getBlock blockNum = Inr (Some b) \<longrightarrow>
        chainFallback getBlock blockNum = Json200 (chainRecord b))
   \<and> (getBlock blockNum = Inr (Some b) \<and> 0 \<le> gasUsed b \<and> gasUsed b < 2 ^ 256 \<longrightarrow>
        (\<exists>n. replyMetric (chainFallback getBlock blockNum) ''avgGasPerTx'' = Some (JNum n)))
   \<and> (poolQuery (parseInt s) = Inr (row # rows)
        \<and> findBlock (parseBlockData jsonParse row) (parseInt s) = Inr None
        \<and> getBlock (parseInt s) = Inr (Some b) \<longrightarrow>
        snd (api_block jsonParse poolQuery getBlock s) = Json200 (chainRecord b))"
proof -
  have m: "replyMetric (Json200 (chainRecord b)) ''avgGasPerTx'' = Some (jsonNumber (avgGasPerTx b))"
    by (simp add: replyMetric_def replyField_def chainRecord_def)
  have f: "chainFallback getBlock blockNum = Json200 (chainRecord b)"
    if "getBlock blockNum = Inr (Some b)" for blockNum
    using that by (simp add: chainFallback_def)
  have a: "snd (api_block jsonParse poolQuery getBlock s) = Json200 (chainRecord b)"
    if "poolQuery (parseInt s) = Inr (row # rows)"
      "findBlock (parseBlockData jsonParse row) (parseInt s) = Inr None"
      "getBlock (parseInt s) = Inr (Some b)"
    using that by (simp add: api_block_def Let_def f)
  have n: "\<exists>n. replyMetric (chainFallback getBlock blockNum) ''avgGasPerTx'' = Some (JNum n)"
    if "getBlock blockNum = Inr (Some b) \<and> 0 \<le> gasUsed b \<and> gasUsed b < 2 ^ 256"
  proof -
    from that avgGasPerTx_finite [of b] obtain k where "avgGasPerTx b = Fin k" by blast
    with that m f [of blockNum] show ?thesis by simp
  qed
  from f [of blockNum] a n avgGasPerTx_empty [of b] avgGasPerTx_safe [of b] avgGasPerTx_finite [of b]
  show ?thesis by blast
qed

theorem avgGasPerTx_guarded_witness:
  "transactions \<lparr>number = 5, timestamp = 1700000000, transactions = [], gasUsed = 0\<rparr> = []
   \<and> avgGasPerTx \<lparr>number = 5, timestamp = 1700000000, transactions = [], gasUsed = 0\<rparr> = Fin 0
   \<and> transactions \<lparr>number = 6, timestamp = 1700000001, transactions = [''0xa1'', ''0xb2'', ''0xc3''],
         gasUsed = 100000\<rparr> \<noteq> []
   \<and> avgGasPerTx \<lparr>number = 6, timestamp = 1700000001, transactions = [''0xa1'', ''0xb2'', ''0xc3''],
         gasUsed = 100000\<rparr> = Fin 33333
   \<and> snd (api_block undecodable (\<lambda>n. Inr [JArr []])
          (\<lambda>n. Inr (Some \<lparr>number = 5, timestamp = 1700000000, transactions = [], gasUsed = 0\<rparr>)) ''5'')
       = Json200 (chainRecord \<lparr>number = 5, timestamp = 1700000000, transactions = [], gasUsed = 0\<rparr>)
   \<and> replyMetric (chainFallback
          (\<lambda>n. Inr (Some \<lparr>number = 5, timestamp = 1700000000, transactions = [], gasUsed = 0\<rparr>)) (Fin 5))
          ''avgGasPerTx'' = Some (JNum 0)"
proof -
  let ?b0 = "\<lparr>number = 5, timestamp = 1700000000, transactions = [], gasUsed = 0\<rparr>"
  let ?b3 = "\<lparr>number = 6, timestamp = 1700000001, transactions = [''0xa1'', ''0xb2'', ''0xc3''],
         gasUsed = 100000\<rparr>"
  have c1: "avgGasPerTx ?b0 = Fin 0"
    using avgGasPerTx_guarded [where b = ?b0] by simp
  have c2: "avgGasPerTx ?b3 = Fin 33333"
    using avgGasPerTx_guarded [where b = ?b3] by simp
  have h: "findBlock (parseBlockData undecodable (JArr [])) (parseInt ''5'') = Inr None"
    by code_simp
  have c3: "snd (api_block undecodable (\<lambda>n. Inr [JArr []]) (\<lambda>n. Inr (Some ?b0)) ''5'')
       = Json200 (chainRecord ?b0)"
    using avgGasPerTx_guarded [where b = ?b0 and poolQuery = "\<lambda>n. Inr [JArr []]"
        and getBlock = "\<lambda>n. Inr (Some ?b0)" and s = "''5''" and row = "JArr []" and rows = "[]"
        and jsonParse = undecodable] h
    by simp
  have c4: "replyMetric (chainFallback (\<lambda>n. Inr (Some ?b0)) (Fin 5)) ''avgGasPerTx'' = Some (JNum 0)"
    by code_simp
  from c1 c2 c3 c4 show ?thesis by simp
qed

text \<open>
  C5. A lookup whose block number is not numeric is not rejected before the collaborators
  are called: for every parameter the backend's first action is the storage query with
  \<^verbatim>\<open>parseInt\<close> of the parameter. At the input \<^verbatim>\<open>abc\<close>, \<^verbatim>\<open>parseInt\<close> gives NaN and the backend's first action is
  the storage query with NaN, whatever the collaborators answer; the frontend finds no
  held record and requests \<^verbatim>\<open>/api/blocks/NaN\<close>, and what it shows is never the alert
  \<^verbatim>\<open>Invalid block number\<close>, which only an exception of \<^verbatim>\<open>parseInt\<close> or \<^verbatim>\<open>find\<close> reaches.
\<close>

theorem nonnumeric_lookup_reaches_storage:
  "parseInt ''abc'' = NaN
   \<and> (\<exists>rest. fst (api_block jsonParse poolQuery getBlock s) = StorageQuery (parseInt s) # rest)
   \<and> (\<exists>rest. fst (api_block jsonParse poolQuery getBlock ''abc'') = StorageQuery NaN # rest)
   \<and> fst (searchBlock backend [] ''abc'') = [''NaN'']
   \<and> snd (searchBlock backend [] ''abc'') \<noteq> Alert ''Invalid block number''
   \<and> parseInt ''NaN'' = NaN"
proof -
  have p: "parseInt ''abc'' = NaN" by code_simp
  have q: "parseInt ''NaN'' = NaN" by code_simp
  have g: "\<exists>rest. fst (api_block jsonParse poolQuery getBlock s) = StorageQuery (parseInt s) # rest"
    for s
    by (auto simp: api_block_def Let_def split: sum.splits list.splits)
  from g [of "''abc''"]
  have "\<exists>rest. fst (api_block jsonParse poolQuery getBlock ''abc'') = StorageQuery NaN # rest"
    by (simp add: p)
  moreover note g [of s]
  moreover have "searchBlock backend [] ''abc'' =
      ([''NaN''], case backend ''NaN'' of
                    Some (Json200 body) \<Rightarrow> Result body
                  | Some (Error404 e) \<Rightarrow> Alert ''Block not found''
                  | Some (Error500 e) \<Rightarrow> Alert ''Error searching block''
                  | None \<Rightarrow> Alert ''Error searching block'')"
    by (simp add: searchBlock_def p)
  then have "fst (searchBlock backend [] ''abc'') = [''NaN'']"
    "snd (searchBlock backend [] ''abc'') \<noteq> Alert ''Invalid block number''"
    by (auto split: option.splits reply.splits)
  ultimately show ?thesis using p q by blast
qed

section \<open>Properties of the frontend's summary\<close>

lemma isNumber_cases: "isNumber v \<Longrightarrow> \<exists>n. v = Some (JNum n)"
  by (cases v rule: isNumber.cases) simp_all

lemma completeRecord_blockRecord: "completeRecord b \<Longrightarrow> blockRecord b"
  by (cases b) (auto dest!: isNumber_cases)

lemma bigintToString_nonempty: "bigintToString g \<noteq> []"
  by (simp add: bigintToString_def decimalDigits_nonempty)

lemma reduceStep_record:
  assumes "completeRecord b" and "totalGasUsed' acc = bigintToString g"
  shows "\<exists>s. reduceStep n acc b = Inr s
     \<and> totalTransactions' s = numberSum (totalTransactions' acc) (numberField b ''hyperEVMTxns'')
     \<and> totalCrossLayerCalls' s = numberSum (totalCrossLayerCalls' acc) (numberField b ''crossLayerCalls'')
     \<and> totalGasUsed' s = bigintToString (g + gasField b)"
proof (cases b)
  case (JObj kvs)
  with assms(1) obtain bn tx cl where f:
    "map_of kvs ''blockNumber'' = Some (JNum bn)" "map_of kvs ''hyperEVMTxns'' = Some (JNum tx)"
    "map_of kvs ''crossLayerCalls'' = Some (JNum cl)"
    by (auto dest!: isNumber_cases)
  from JObj assms(1) obtain gv where gv: "map_of kvs ''gasUsed'' = Some gv" "plainGas (Some gv)"
    by auto
  have g: "propertyToBigInt (map_of kvs ''gasUsed'') = Inr (gasField b)"
    using gv JObj by (cases "Some gv" rule: plainGas.cases) (auto simp: gasField_def)
  have a: "toBigInt (if totalGasUsed' acc \<noteq> [] then JStr (totalGasUsed' acc) else JStr ''0'') = Inr g"
    using assms(2) by (simp add: bigintToString_nonempty StringToBigInt_bigintToString)
  show ?thesis
    unfolding reduceStep_def a
    using f g JObj by (simp add: bindE_def numberField_def)
qed (use assms in simp_all)

text \<open>A record without \<^verbatim>\<open>gasUsed\<close> stops the fold: \<^verbatim>\<open>BigInt(undefined)\<close> throws.\<close>

lemma reduceStep_no_gas:
  assumes "isNumber (map_of kvs ''blockNumber'')" and "isNumber (map_of kvs ''hyperEVMTxns'')"
    and "isNumber (map_of kvs ''crossLayerCalls'')" and "map_of kvs ''gasUsed'' = None"
    and "totalGasUsed' acc = bigintToString g"
  shows "reduceStep n acc (JObj kvs) = Inl TypeError"
proof -
  from assms(1,2,3) obtain bn tx cl where f:
    "map_of kvs ''blockNumber'' = Some (JNum bn)" "map_of kvs ''hyperEVMTxns'' = Some (JNum tx)"
    "map_of kvs ''crossLayerCalls'' = Some (JNum cl)"
    by (auto dest!: isNumber_cases)
  have a: "toBigInt (if totalGasUsed' acc \<noteq> [] then JStr (totalGasUsed' acc) else JStr ''0'') = Inr g"
    using assms(5) by (simp add: bigintToString_nonempty StringToBigInt_bigintToString)
  show ?thesis
    unfolding reduceStep_def a
    using f assms(4) by (simp add: bindE_def)
qed

lemma reduceStats_append:
  "reduceStats n acc (xs @ ys) = bindE (reduceStats n acc xs) (\<lambda>acc'. reduceStats n acc' ys)"
  by (induction xs arbitrary: acc) (auto simp: bindE_def split: sum.splits)

lemma reduceStats_complete:
  assumes "list_all completeRecord bs" and "totalGasUsed' acc = bigintToString g"
  shows "\<exists>s g'. reduceStats n acc bs = Inr s \<and> totalGasUsed' s = bigintToString g'"
  using assms
proof (induction bs arbitrary: acc g)
  case Nil
  then show ?case by auto
next
  case (Cons b bs)
  then have b: "completeRecord b" and bs: "list_all completeRecord bs" by simp_all
  from reduceStep_record [OF b Cons.prems(2), of n] obtain s where s:
    "reduceStep n acc b = Inr s" "totalGasUsed' s = bigintToString (g + gasField b)"
    by blast
  from Cons.IH [OF bs s(2)] s(1) show ?case
    by (simp add: bindE_def)
qed

lemma degradedSummary_no_gas:
  assumes "list_all completeRecord bs"
    and "isNumber (map_of kvs ''blockNumber'')" and "isNumber (map_of kvs ''hyperEVMTxns'')"
    and "isNumber (map_of kvs ''crossLayerCalls'')" and "map_of kvs ''gasUsed'' = None"
  shows "degradedSummary (bs @ JObj kvs # rest) = Inl TypeError"
proof -
  let ?n = "length (bs @ JObj kvs # rest)"
  have "totalGasUsed' initialStats = bigintToString 0"
    by (simp add: initialStats_def bigintToString_zero)
  from reduceStats_complete [OF assms(1) this, of ?n] obtain s g' where s:
    "reduceStats ?n initialStats bs = Inr s" "totalGasUsed' s = bigintToString g'"
    by blast
  have "reduceStats ?n initialStats (bs @ JObj kvs # rest) = Inl TypeError"
    unfolding reduceStats_append s(1)
    by (simp add: bindE_def reduceStep_no_gas [OF assms(2-5) s(2)])
  then show ?thesis
    by (simp add: degradedSummary_def totalStats_def bindE_def)
qed

text \<open>While the two counters stay in the safe range, the frontend's totals are the exact sums.\<close>

lemma reduceStats_safe:
  assumes "list_all completeRecord bs" and "totalGasUsed' acc = bigintToString g"
    and "\<bar>totalTransactions' acc\<bar> + (\<Sum>b\<leftarrow>bs. \<bar>numberField b ''hyperEVMTxns''\<bar>) \<le> 2 ^ 53"
    and "\<bar>totalCrossLayerCalls' acc\<bar> + (\<Sum>b\<leftarrow>bs. \<bar>numberField b ''crossLayerCalls''\<bar>) \<le> 2 ^ 53"
  shows "\<exists>s. reduceStats n acc bs = Inr s
     \<and> totalTransactions' s = totalTransactions' acc + (\<Sum>b\<leftarrow>bs. numberField b ''hyperEVMTxns'')
     \<and> totalCrossLayerCalls' s = totalCrossLayerCalls' acc + (\<Sum>b\<leftarrow>bs. numberField b ''crossLayerCalls'')
     \<and> totalGasUsed' s = bigintToString (g + (\<Sum>b\<leftarrow>bs. gasField b))"
  using assms
proof (induction bs arbitrary: acc g)
  case Nil
  from Nil.prems(2) show ?case by simp
next
  case (Cons b bs)
  from Cons.prems(1) have b: "completeRecord b" and bs: "list_all completeRecord bs" by simp_all
  define tx where "tx = numberField b ''hyperEVMTxns''"
  define cl where "cl = numberField b ''crossLayerCalls''"
  define stx where "stx = (\<Sum>b\<leftarrow>bs. \<bar>numberField b ''hyperEVMTxns''\<bar>)"
  define scl where "scl = (\<Sum>b\<leftarrow>bs. \<bar>numberField b ''crossLayerCalls''\<bar>)"
  define B :: int where "B = 2 ^ 53"
  have r: "0 \<le> stx" "0 \<le> scl"
    unfolding stx_def scl_def by (rule sum_abs_nonneg)+
  have q3: "\<bar>totalTransactions' acc\<bar> + (\<bar>tx\<bar> + stx) \<le> B"
    using Cons.prems(3) unfolding tx_def stx_def B_def by (simp only: list.map sum_list.Cons)
  have q4: "\<bar>totalCrossLayerCalls' acc\<bar> + (\<bar>cl\<bar> + scl) \<le> B"
    using Cons.prems(4) unfolding cl_def scl_def B_def by (simp only: list.map sum_list.Cons)
  have e1: "numberSum (totalTransactions' acc) tx = totalTransactions' acc + tx"
  proof (rule numberSum_exact)
    show "\<bar>totalTransactions' acc + tx\<bar> \<le> 2 ^ 53" using q3 r(1) unfolding B_def [symmetric] by linarith
  qed
  have e2: "numberSum (totalCrossLayerCalls' acc) cl = totalCrossLayerCalls' acc + cl"
  proof (rule numberSum_exact)
    show "\<bar>totalCrossLayerCalls' acc + cl\<bar> \<le> 2 ^ 53" using q4 r(2) unfolding B_def [symmetric] by linarith
  qed
  from reduceStep_record [OF b Cons.prems(2), of n] obtain s where s:
    "reduceStep n acc b = Inr s"
    "totalTransactions' s = totalTransactions' acc + tx"
    "totalCrossLayerCalls' s = totalCrossLayerCalls' acc + cl"
    "totalGasUsed' s = bigintToString (g + gasField b)"
    unfolding tx_def [symmetric] cl_def [symmetric] e1 e2 by blast
  have p3: "\<bar>totalTransactions' s\<bar> + (\<Sum>b\<leftarrow>bs. \<bar>numberField b ''hyperEVMTxns''\<bar>) \<le> 2 ^ 53"
    unfolding s stx_def [symmetric] B_def [symmetric] using q3 by linarith
  have p4: "\<bar>totalCrossLayerCalls' s\<bar> + (\<Sum>b\<leftarrow>bs. \<bar>numberField b ''crossLayerCalls''\<bar>) \<le> 2 ^ 53"
    unfolding s scl_def [symmetric] B_def [symmetric] using q4 by linarith
  from Cons.IH [OF bs s(4) p3 p4] obtain s' where s':
    "reduceStats n s bs = Inr s'"
    "totalTransactions' s' = totalTransactions' s + (\<Sum>b\<leftarrow>bs. numberField b ''hyperEVMTxns'')"
    "totalCrossLayerCalls' s' = totalCrossLayerCalls' s + (\<Sum>b\<leftarrow>bs. numberField b ''crossLayerCalls'')"
    "totalGasUsed' s' = bigintToString (g + gasField b + (\<Sum>b\<leftarrow>bs. gasField b))"
    by blast
  have r: "reduceStats n acc (b # bs) = Inr s'"
    by (simp add: s(1) s'(1) bindE_def)
  have "totalTransactions' s' = totalTransactions' acc + (\<Sum>b\<leftarrow>b # bs. numberField b ''hyperEVMTxns'')"
    "totalCrossLayerCalls' s' = totalCrossLayerCalls' acc + (\<Sum>b\<leftarrow>b # bs. numberField b ''crossLayerCalls'')"
    "totalGasUsed' s' = bigintToString (g + (\<Sum>b\<leftarrow>b # bs. gasField b))"
    using s'(2,3,4) s(2,3) by (simp_all add: tx_def cl_def add.assoc)
  with r show ?case by blast
qed

lemma degradedSummary_records:
  assumes "list_all completeRecord bs"
    and "safeCounter ''hyperEVMTxns'' bs" and "safeCounter ''crossLayerCalls'' bs"
  shows "degradedSummary bs =
     Inr ((\<Sum>b\<leftarrow>bs. numberField b ''hyperEVMTxns''), (\<Sum>b\<leftarrow>bs. numberField b ''crossLayerCalls''),
          bigintToString (\<Sum>b\<leftarrow>bs. gasField b))"
proof -
  have g: "totalGasUsed' initialStats = bigintToString 0"
    by (simp add: initialStats_def bigintToString_zero)
  have s: "\<bar>totalTransactions' initialStats\<bar> + (\<Sum>b\<leftarrow>bs. \<bar>numberField b ''hyperEVMTxns''\<bar>) \<le> 2 ^ 53"
    "\<bar>totalCrossLayerCalls' initialStats\<bar> + (\<Sum>b\<leftarrow>bs. \<bar>numberField b ''crossLayerCalls''\<bar>) \<le> 2 ^ 53"
    using assms(2,3) by (simp_all add: safeCounter_def initialStats_def)
  from reduceStats_safe [OF assms(1) g s, of "length bs"] show ?thesis
    by (auto simp: degradedSummary_def totalStats_def bindE_def initialStats_def)
qed

lemma sum_abs_filter: "(\<Sum>b\<leftarrow>filter P bs. \<bar>f b :: int\<bar>) \<le> (\<Sum>b\<leftarrow>bs. \<bar>f b\<bar>)"
  by (induction bs) auto

lemma safeTotals_filter:
  assumes "safeTotals bs"
  shows "safeTotals (filter P bs)"
proof -
  have c: "safeCounter k (filter P bs)" if "safeCounter k bs" for k
    using that sum_abs_filter [where P = P and f = "\<lambda>b. numberField b k" and bs = bs]
    unfolding safeCounter_def by (rule_tac order_trans)
  have "int (length (filter P bs)) \<le> int (length bs)" by simp
  then have "int (length (filter P bs)) \<le> 2 ^ 53" if "int (length bs) \<le> 2 ^ 53"
    using that by (rule order_trans)
  with assms c show ?thesis
    unfolding safeTotals_def by blast
qed

lemma primarySummary_records:
  assumes "list_all blockRecord bs" and "safeTotals (filter activeRecord bs)"
  shows "primarySummary bs =
     Inr ((\<Sum>b\<leftarrow>filter activeRecord bs. numberField b ''hyperEVMTxns''),
          (\<Sum>b\<leftarrow>filter activeRecord bs. numberField b ''crossLayerCalls''),
          bigintToString (\<Sum>b\<leftarrow>filter activeRecord bs. gasField b))"
  unfolding primarySummary_def statsBlocks_records [OF assms] by (simp add: bindE_def)

lemma sum_active_all:
  assumes "\<forall>b \<in> set bs. \<not> activeRecord b \<longrightarrow> f b = (0::int)"
  shows "(\<Sum>b\<leftarrow>filter activeRecord bs. f b) = (\<Sum>b\<leftarrow>bs. f b)"
  using assms by (induction bs) auto

text \<open>
  C4 (amended). Without the backend's summary, the frontend folds the held records by
  itself. Let every held record be one the interface \<^verbatim>\<open>BlockData\<close> declares, as far as
  the fold reads it (\<^verbatim>\<open>blockNumber\<close>, \<^verbatim>\<open>hyperEVMTxns\<close> and \<^verbatim>\<open>crossLayerCalls\<close> integer
  numbers, \<^verbatim>\<open>hyperCoreActions\<close> a number or absent, \<^verbatim>\<open>gasUsed\<close> present as an integer
  literal or a number), and let the counters stay in the range where the runtime's numbers
  hold every integer (magnitudes adding up to at most \<open>2^53\<close>). Then the frontend's totals
  are the sums of \<^verbatim>\<open>hyperEVMTxns\<close>, \<^verbatim>\<open>crossLayerCalls\<close> and \<^verbatim>\<open>gasUsed\<close> (as BigInt, from the
  text \<^verbatim>\<open>'0'\<close>) over every held record, those without transactions included. They equal
  the totals of the backend's fold over the same records whenever every record without
  transactions carries no cross-layer calls and no gas. A further record that lacks
  \<^verbatim>\<open>gasUsed\<close> makes the frontend's fold throw a TypeError, where the backend's fold counts
  zero gas. Over no records both folds give zero transactions, zero calls and the gas
  text \<^verbatim>\<open>'0'\<close>.
\<close>

theorem degraded_summary_sums_all:
  assumes "list_all completeRecord blocks" and "safeTotals blocks"
  shows "degradedSummary blocks =
       Inr ((\<Sum>b\<leftarrow>blocks. numberField b ''hyperEVMTxns''),
            (\<Sum>b\<leftarrow>blocks. numberField b ''crossLayerCalls''),
            bigintToString (\<Sum>b\<leftarrow>blocks. gasField b))
     \<and> (list_all idleRecordIsEmpty blocks \<longrightarrow> degradedSummary blocks = primarySummary blocks)
     \<and> (\<forall>kvs rest. isNumber (map_of kvs ''blockNumber'') \<and> isNumber (map_of kvs ''hyperEVMTxns'')
          \<and> isNumber (map_of kvs ''crossLayerCalls'') \<and> map_of kvs ''gasUsed'' = None \<longrightarrow>
          degradedSummary (blocks @ JObj kvs # rest) = Inl TypeError)
     \<and> degradedSummary [] = Inr (0, 0, ''0'')
     \<and> primarySummary [] = Inr (0, 0, ''0'')"
proof -
  have br: "list_all blockRecord blocks"
    using assms(1) completeRecord_blockRecord by (auto simp: list_all_iff)
  have sc: "safeCounter ''hyperEVMTxns'' blocks" "safeCounter ''crossLayerCalls'' blocks"
    using assms(2) by (simp_all add: safeTotals_def)
  have sf: "safeTotals (filter activeRecord blocks)"
    by (rule safeTotals_filter [OF assms(2)])
  note d = degradedSummary_records [OF assms(1) sc]
  have eq: "degradedSummary blocks = primarySummary blocks" if idle: "list_all idleRecordIsEmpty blocks"
  proof -
    from idle have i: "\<forall>b \<in> set blocks. \<not> activeRecord b \<longrightarrow>
        numberField b ''hyperEVMTxns'' = 0 \<and> numberField b ''crossLayerCalls'' = 0 \<and> gasField b = 0"
      by (auto simp: list_all_iff idleRecordIsEmpty_def)
    then show ?thesis
      by (simp add: d primarySummary_records [OF br sf] sum_active_all [of blocks])
  qed
  have ng: "\<forall>kvs rest. isNumber (map_of kvs ''blockNumber'') \<and> isNumber (map_of kvs ''hyperEVMTxns'')
          \<and> isNumber (map_of kvs ''crossLayerCalls'') \<and> map_of kvs ''gasUsed'' = None \<longrightarrow>
          degradedSummary (blocks @ JObj kvs # rest) = Inl TypeError"
    using degradedSummary_no_gas [OF assms(1)] by blast
  have z: "safeCounter k []" for k by (simp add: safeCounter_def)
  have zt: "safeTotals (filter activeRecord [])" by (simp add: safeTotals_def z)
  have e1: "degradedSummary [] = Inr (0, 0, ''0'')"
    using degradedSummary_records [of "[]"] z by (simp add: bigintToString_zero)
  have e2: "primarySummary [] = Inr (0, 0, ''0'')"
    using primarySummary_records [of "[]"] zt by (simp add: bigintToString_zero)
  from d eq ng e1 e2 show ?thesis by blast
qed

theorem degraded_summary_sums_all_witness:
  "list_all completeRecord
      [JObj [(''blockNumber'', JNum 7), (''hyperEVMTxns'', JNum 3), (''crossLayerCalls'', JNum 1),
             (''gasUsed'', JStr ''63000'')],
       JObj [(''blockNumber'', JNum 8), (''hyperEVMTxns'', JNum 0), (''crossLayerCalls'', JNum 0),
             (''gasUsed'', JStr ''0'')]]
   \<and> safeTotals
      [JObj [(''blockNumber'', JNum 7), (''hyperEVMTxns'', JNum 3), (''crossLayerCalls'', JNum 1),
             (''gasUsed'', JStr ''63000'')],
       JObj [(''blockNumber'', JNum 8), (''hyperEVMTxns'', JNum 0), (''crossLayerCalls'', JNum 0),
             (''gasUsed'', JStr ''0'')]]
   \<and> list_all idleRecordIsEmpty
      [JObj [(''blockNumber'', JNum 7), (''hyperEVMTxns'', JNum 3), (''crossLayerCalls'', JNum 1),
             (''gasUsed'', JStr ''63000'')],
       JObj [(''blockNumber'', JNum 8), (''hyperEVMTxns'', JNum 0), (''crossLayerCalls'', JNum 0),
             (''gasUsed'', JStr ''0'')]]
   \<and> degradedSummary
      [JObj [(''blockNumber'', JNum 7), (''hyperEVMTxns'', JNum 3), (''crossLayerCalls'', JNum 1),
             (''gasUsed'', JStr ''63000'')],
       JObj [(''blockNumber'', JNum 8), (''hyperEVMTxns'', JNum 0), (''crossLayerCalls'', JNum 0),
             (''gasUsed'', JStr ''0'')]] = Inr (3, 1, ''63000'')
   \<and> primarySummary
      [JObj [(''blockNumber'', JNum 7), (''hyperEVMTxns'', JNum 3), (''crossLayerCalls'', JNum 1),
             (''gasUsed'', JStr ''63000'')],
       JObj [(''blockNumber'', JNum 8), (''hyperEVMTxns'', JNum 0), (''crossLayerCalls'', JNum 0),
             (''gasUsed'', JStr ''0'')]] = Inr (3, 1, ''63000'')
   \<and> degradedSummary
      ([JObj [(''blockNumber'', JNum 7), (''hyperEVMTxns'', JNum 3), (''crossLayerCalls'', JNum 1),
             (''gasUsed'', JStr ''63000'')],
       JObj [(''blockNumber'', JNum 8), (''hyperEVMTxns'', JNum 0), (''crossLayerCalls'', JNum 0),
             (''gasUsed'', JStr ''0'')]]
       @ [JObj [(''blockNumber'', JNum 9), (''hyperEVMTxns'', JNum 3), (''crossLayerCalls'', JNum 1)]])
       = Inl TypeError"
proof -
  let ?bs = "[JObj [(''blockNumber'', JNum 7), (''hyperEVMTxns'', JNum 3), (''crossLayerCalls'', JNum 1),
             (''gasUsed'', JStr ''63000'')],
       JObj [(''blockNumber'', JNum 8), (''hyperEVMTxns'', JNum 0), (''crossLayerCalls'', JNum 0),
             (''gasUsed'', JStr ''0'')]]"
  let ?kvs = "[(''blockNumber'', JNum 9), (''hyperEVMTxns'', JNum 3), (''crossLayerCalls'', JNum 1)]"
  have h1: "list_all completeRecord ?bs" by code_simp
  have h2: "list_all idleRecordIsEmpty ?bs" by code_simp
  have h3: "safeTotals ?bs" by code_simp
  have h4: "isNumber (map_of ?kvs ''blockNumber'') \<and> isNumber (map_of ?kvs ''hyperEVMTxns'')
          \<and> isNumber (map_of ?kvs ''crossLayerCalls'') \<and> map_of ?kvs ''gasUsed'' = None"
    by code_simp
  have v: "Inr ((\<Sum>b\<leftarrow>?bs. numberField b ''hyperEVMTxns''),
            (\<Sum>b\<leftarrow>?bs. numberField b ''crossLayerCalls''),
            bigintToString (\<Sum>b\<leftarrow>?bs. gasField b)) = (Inr (3, 1, ''63000'') :: js_error + int \<times> int \<times> string)"
    by code_simp
  note t = degraded_summary_sums_all [OF h1 h3, unfolded v]
  from t have d: "degradedSummary ?bs = Inr (3, 1, ''63000'')" by blast
  from t h2 have "degradedSummary ?bs = primarySummary ?bs" by blast
  with d have p: "primarySummary ?bs = Inr (3, 1, ''63000'')" by metis
  from t h4 have n: "degradedSummary (?bs @ [JObj ?kvs]) = Inl TypeError" by blast
  from d p n h1 h2 h3 show ?thesis by blast
qed

text \<open>
  The claim as stated fails: a held record without transactions that carries cross-layer
  calls and gas is counted by the frontend and skipped by the backend's fold.
\<close>

theorem degraded_summary_counts_idle_counterexample:
  "degradedSummary [JObj [(''blockNumber'', JNum 7), (''hyperEVMTxns'', JNum 0),
                           (''crossLayerCalls'', JNum 2), (''gasUsed'', JStr ''21000'')]]
        = Inr (0, 2, ''21000'')
   \<and> primarySummary [JObj [(''blockNumber'', JNum 7), (''hyperEVMTxns'', JNum 0),
                           (''crossLayerCalls'', JNum 2), (''gasUsed'', JStr ''21000'')]]
        = Inr (0, 0, ''0'')
   \<and> degradedSummary [JObj [(''blockNumber'', JNum 7), (''hyperEVMTxns'', JNum 0),
                           (''crossLayerCalls'', JNum 2), (''gasUsed'', JStr ''21000'')]]
     \<noteq> primarySummary [JObj [(''blockNumber'', JNum 7), (''hyperEVMTxns'', JNum 0),
                           (''crossLayerCalls'', JNum 2), (''gasUsed'', JStr ''21000'')]]"
  by code_simp

section \<open>Properties of the percentage\<close>

text \<open>The double computed for the percentage is close to the exact quotient.\<close>

lemma percentage_error:
  assumes "0 \<le> q"
  shows "\<bar>numTimes (roundDouble q) 100 - 100 * q\<bar> \<le> 100 * q * (2 / 2 ^ 53 + 1 / 2 ^ 106)"
    and "0 \<le> numTimes (roundDouble q) 100"
proof -
  define e :: rat where "e = 1 / 2 ^ 53"
  define x1 where "x1 = roundDouble q"
  define x2 where "x2 = roundDouble (x1 * 100)"
  have x1pos: "0 \<le> x1" unfolding x1_def using assms by (rule roundDouble_nonneg)
  have e1: "\<bar>x1 - q\<bar> \<le> q * e"
    using roundDouble_error [of q] assms by (simp add: x1_def e_def)
  have e2: "\<bar>x2 - x1 * 100\<bar> \<le> x1 * 100 * e"
    using roundDouble_error [of "x1 * 100"] x1pos by (simp add: x2_def e_def)
  have x1up: "x1 \<le> q * (1 + e)" using e1 by (simp add: algebra_simps abs_le_iff)
  have epos: "0 \<le> e" by (simp add: e_def)
  have "x1 * 100 * e \<le> q * (1 + e) * 100 * e"
    using x1up epos by (intro mult_right_mono) simp_all
  with e2 have e2': "\<bar>x2 - x1 * 100\<bar> \<le> q * (1 + e) * 100 * e" by linarith
  have "\<bar>x2 - 100 * q\<bar> \<le> \<bar>x2 - x1 * 100\<bar> + 100 * \<bar>x1 - q\<bar>"
    by (simp add: abs_if split: if_splits)
  also have "\<dots> \<le> q * (1 + e) * 100 * e + 100 * (q * e)"
  proof (rule add_mono)
    show "\<bar>x2 - x1 * 100\<bar> \<le> q * (1 + e) * 100 * e" by (rule e2')
    show "100 * \<bar>x1 - q\<bar> \<le> 100 * (q * e)" using e1 by simp
  qed
  also have "\<dots> = 100 * q * (2 * e + e * e)" by (simp add: algebra_simps)
  also have "2 * e + e * e = 2 / 2 ^ 53 + 1 / 2 ^ 106" by (simp add: e_def)
  finally show "\<bar>numTimes (roundDouble q) 100 - 100 * q\<bar> \<le> 100 * q * (2 / 2 ^ 53 + 1 / 2 ^ 106)"
    by (simp add: numTimes_def x2_def x1_def)
  show "0 \<le> numTimes (roundDouble q) 100"
    unfolding numTimes_def using x1pos by (intro roundDouble_nonneg) (simp add: x1_def)
qed


lemma nearest_integer:
  fixes W :: rat and N t :: int
  assumes t: "0 < t" and close: "\<bar>W - of_int N / of_int t\<bar> < (1 / 2) / of_int t"
  shows "\<bar>of_int \<lfloor>W + 1 / 2\<rfloor> - of_int N / of_int t\<bar> \<le> (1 / 2 :: rat)"
proof -
  define T :: rat where "T = of_int t"
  define n where "n = \<lfloor>W + 1 / 2\<rfloor>"
  have T: "0 < T" using t by (simp add: T_def)
  have fl: "of_int n \<le> W + 1 / 2" "W + 1 / 2 < of_int n + 1" unfolding n_def by linarith+
  have W: "W < of_int N / T + (1 / 2) / T" "of_int N / T - (1 / 2) / T < W"
    using close by (simp_all add: T_def abs_less_iff algebra_simps)
  have up: "of_int n \<le> of_int N / T + 1 / 2"
  proof -
    have "of_int n < of_int N / T + (1 / 2) / T + 1 / 2" using fl(1) W(1) by linarith
    then have "of_int n * (2 * T) < (of_int N / T + (1 / 2) / T + 1 / 2) * (2 * T)"
      using T by (simp add: mult_strict_right_mono)
    also have "\<dots> = 2 * of_int N + 1 + T" using T by (simp add: field_simps)
    finally have "of_int (n * (2 * t)) < (of_int (2 * N + 1 + t) :: rat)" by (simp add: T_def)
    then have "n * (2 * t) < 2 * N + 1 + t" by (simp only: of_int_less_iff)
    then have "n * (2 * t) \<le> 2 * N + t" by simp
    then have "of_int (n * (2 * t)) \<le> (of_int (2 * N + t) :: rat)" by (simp only: of_int_le_iff)
    then have "of_int n * (2 * T) \<le> 2 * of_int N + T" by (simp add: T_def)
    then show ?thesis using T by (simp add: field_simps)
  qed
  have low: "of_int N / T - 1 / 2 \<le> of_int n"
  proof -
    have "of_int N / T - (1 / 2) / T + 1 / 2 < of_int n + 1" using fl(2) W(2) by linarith
    then have lt: "(of_int N / T - (1 / 2) / T + 1 / 2) * (2 * T) < (of_int n + 1) * (2 * T)"
      using T by (simp add: mult_strict_right_mono)
    have "2 * of_int N - 1 + T = (of_int N / T - (1 / 2) / T + 1 / 2) * (2 * T)"
      using T by (simp add: field_simps)
    also note lt
    finally have "(of_int (2 * N - 1 + t) :: rat) < of_int ((n + 1) * (2 * t))"
      by (simp add: T_def)
    then have "2 * N - 1 + t < (n + 1) * (2 * t)" by (simp only: of_int_less_iff)
    then have "2 * N + t \<le> (n + 1) * (2 * t)" by simp
    then have "(of_int (2 * N + t) :: rat) \<le> of_int ((n + 1) * (2 * t))" by (simp only: of_int_le_iff)
    then have "2 * of_int N + T \<le> (of_int n + 1) * (2 * T)" by (simp add: T_def)
    then show ?thesis using T by (simp add: field_simps)
  qed
  from up low have "\<bar>of_int n - of_int N / T\<bar> \<le> 1 / 2" by linarith
  then show ?thesis by (simp only: n_def T_def)
qed

lemma percentage_rounding:
  assumes "0 < t" "0 \<le> c" "c \<le> 200000000000"
  shows "\<bar>of_int \<lfloor>numTimes (numDivide (of_int c) (of_int t)) 100 * 100 + 1 / 2\<rfloor>
           - of_int (10000 * c) / of_int t\<bar> \<le> (1 / 2 :: rat)"
    and "0 \<le> numTimes (numDivide (of_int c) (of_int t)) 100"
proof -
  define T :: rat where "T = of_int t"
  define C :: rat where "C = of_int c"
  define x where "x = numTimes (numDivide C T) 100"
  define d :: rat where "d = 2 / 2 ^ 53 + 1 / 2 ^ 106"
  have T: "0 < T" using assms(1) by (simp add: T_def)
  have C: "0 \<le> C" "C \<le> 200000000000" using assms(2,3) by (simp_all add: C_def)
  have q: "0 \<le> C / T" using T C by simp
  have x: "\<bar>x - 100 * (C / T)\<bar> \<le> 100 * (C / T) * d" and xpos: "0 \<le> x"
    using percentage_error [OF q] by (simp_all add: x_def numDivide_def d_def)
  have "x * 100 - of_int (10000 * c) / T = 100 * (x - 100 * (C / T))"
    by (simp add: C_def algebra_simps)
  then have "\<bar>x * 100 - of_int (10000 * c) / T\<bar> = \<bar>100 * (x - 100 * (C / T))\<bar>"
    by (rule arg_cong)
  also have "\<dots> = 100 * \<bar>x - 100 * (C / T)\<bar>"
    by (simp only: abs_mult)
  also have "\<dots> \<le> 100 * (100 * (C / T) * d)" using x by simp
  also have "\<dots> = (10000 * C * d) / T" by simp
  also have "\<dots> < (1 / 2) / T"
  proof -
    have "10000 * C * d \<le> 10000 * 200000000000 * d"
      using C by (simp add: d_def)
    also have "\<dots> < 1 / 2" by (simp add: d_def)
    finally have "10000 * C * d < 1 / 2" .
    then show ?thesis using T by (rule divide_strict_right_mono)
  qed
  finally have close: "\<bar>x * 100 - of_int (10000 * c) / of_int t\<bar> < (1 / 2) / of_int t"
    by (simp add: T_def)
  from nearest_integer [OF assms(1) close]
  show "\<bar>of_int \<lfloor>numTimes (numDivide (of_int c) (of_int t)) 100 * 100 + 1 / 2\<rfloor>
           - of_int (10000 * c) / of_int t\<bar> \<le> (1 / 2 :: rat)"
    by (simp add: x_def C_def T_def)
  from xpos show "0 \<le> numTimes (numDivide (of_int c) (of_int t)) 100"
    by (simp add: x_def C_def T_def)
qed

lemma crossLayerPercentage_rounded:
  assumes "0 < t" "0 \<le> c" "c \<le> 200000000000"
  shows "\<exists>n. crossLayerPercentage c t = fixed2 n \<and> 0 \<le> n
    \<and> \<bar>of_int n / 100 - 100 * of_int c / of_int t\<bar> \<le> (1 / 200 :: rat)"
proof -
  define x where "x = numTimes (numDivide (of_int c) (of_int t)) 100"
  define n where "n = \<lfloor>x * 100 + 1 / 2\<rfloor>"
  have r: "\<bar>of_int n - of_int (10000 * c) / of_int t\<bar> \<le> (1 / 2 :: rat)" and xpos: "0 \<le> x"
    using percentage_rounding [OF assms] by (simp_all add: n_def x_def)
  have "crossLayerPercentage c t = fixed2 n"
    using assms(1) xpos by (simp add: crossLayerPercentage_def toFixed2_def n_def x_def)
  moreover have "0 \<le> n" unfolding n_def using xpos by simp
  moreover have "\<bar>of_int n / 100 - 100 * of_int c / of_int t\<bar> \<le> (1 / 200 :: rat)"
  proof -
    have "of_int n / 100 - 100 * of_int c / of_int t
        = (of_int n - of_int (10000 * c) / of_int t) / (100 :: rat)"
      by (simp add: field_simps)
    then have "\<bar>of_int n / 100 - 100 * of_int c / of_int t\<bar>
        = \<bar>(of_int n - of_int (10000 * c) / of_int t) / (100 :: rat)\<bar>"
      by (rule arg_cong)
    also have "\<dots> = \<bar>of_int n - of_int (10000 * c) / of_int t\<bar> / (100 :: rat)"
      by (simp only: abs_divide)
    also have "\<dots> \<le> (1 / 2) / 100" using r by (simp add: divide_right_mono)
    finally show ?thesis by simp
  qed
  ultimately show ?thesis by blast
qed

lemma fixed2_digits:
  assumes "0 \<le> n"
  shows "fixed2 n = decimalDigits (n div 100) @ ''.'' @ [digitChar (n div 10 mod 10), digitChar (n mod 10)]"
proof -
  consider "n < 10" | "10 \<le> n" "n < 100" | "100 \<le> n" by linarith
  then show ?thesis
  proof cases
    case 1
    then have "decimalDigits n = [digitChar n]" by (simp add: decimalDigits.simps [of n])
    moreover have "n div 100 = 0" "n div 10 mod 10 = 0" "n mod 10 = n" using 1 assms by simp_all
    moreover have "decimalDigits 0 = [digitChar 0]" by (simp add: decimalDigits.simps [of 0])
    ultimately show ?thesis
      by (simp add: fixed2_def Let_def digitChar_def numeral_2_eq_2)
  next
    case 2
    then have "n div 10 < 10" by simp
    then have "decimalDigits n = [digitChar (n div 10), digitChar (n mod 10)]"
      using 2 by (simp add: decimalDigits.simps [of n] decimalDigits.simps [of "n div 10"])
    moreover have "n div 100 = 0" "n div 10 mod 10 = n div 10" using 2 assms by simp_all
    moreover have "decimalDigits 0 = [digitChar 0]" by (simp add: decimalDigits.simps [of 0])
    ultimately show ?thesis
      by (simp add: fixed2_def Let_def digitChar_def)
  next
    case 3
    then have "\<not> n < 10" "\<not> n div 10 < 10" by simp_all
    moreover have "n div 10 div 10 = n div 100" by simp
    ultimately have m: "decimalDigits n
        = decimalDigits (n div 100) @ [digitChar (n div 10 mod 10), digitChar (n mod 10)]"
      by (simp add: decimalDigits.simps [of n] decimalDigits.simps [of "n div 10"])
    have ne: "decimalDigits (n div 100) \<noteq> []" by (rule decimalDigits_nonempty)
    then have "\<not> length (decimalDigits n) \<le> 2"
      by (cases "decimalDigits (n div 100)") (simp_all add: m)
    then show ?thesis by (simp add: fixed2_def Let_def m)
  qed
qed

lemma api_stats_fields:
  assumes "list_all blockRecord (concat (map (parseBlockData jsonParse) rows))"
    and "safeTotals (filter activeRecord (concat (map (parseBlockData jsonParse) rows)))"
  shows "replyField (api_stats jsonParse (Inr stats) (Inr rows)) ''totalTransactions''
       = Some (JNum (\<Sum>b\<leftarrow>filter activeRecord (concat (map (parseBlockData jsonParse) rows)).
                       numberField b ''hyperEVMTxns''))"
    and "replyField (api_stats jsonParse (Inr stats) (Inr rows)) ''totalCrossLayerCalls''
       = Some (JNum (\<Sum>b\<leftarrow>filter activeRecord (concat (map (parseBlockData jsonParse) rows)).
                       numberField b ''crossLayerCalls''))"
    and "replyField (api_stats jsonParse (Inr stats) (Inr rows)) ''crossLayerPercentage''
       = Some (JStr (crossLayerPercentage
           (\<Sum>b\<leftarrow>filter activeRecord (concat (map (parseBlockData jsonParse) rows)).
               numberField b ''crossLayerCalls'')
           (\<Sum>b\<leftarrow>filter activeRecord (concat (map (parseBlockData jsonParse) rows)).
               numberField b ''hyperEVMTxns'')))"
  using trans [OF statsRows_concat statsBlocks_records [OF assms]]
  by (simp_all add: api_stats_def replyField_def statsBody_def)

lemma api_stats_no_rows:
  "replyField (api_stats jsonParse (Inr stats) (Inr [])) ''totalTransactions'' = Some (JNum 0)"
  "replyField (api_stats jsonParse (Inr stats) (Inr [])) ''crossLayerPercentage'' = Some (JStr ''0'')"
  "replyField (api_stats jsonParse (Inr stats) (Inr [])) ''totalGasUsed'' = Some (JStr ''0'')"
  by (simp_all add: api_stats_def zeroTotals_def replyField_def statsBody_def
        crossLayerPercentage_def bigintToString_zero)

text \<open>
  C9 (amended). In the reply of \<^verbatim>\<open>/api/stats\<close>, \<^verbatim>\<open>crossLayerPercentage\<close> is the text \<^verbatim>\<open>0\<close>
  whenever \<^verbatim>\<open>totalTransactions\<close> is not positive, and otherwise the two-decimal text of
  \<^verbatim>\<open>totalCrossLayerCalls / totalTransactions * 100\<close> as computed in doubles. For
  \<^verbatim>\<open>totalCrossLayerCalls\<close> from 0 to \<open>2 * 10^11\<close> that text is a numeral with two decimals
  within 0.005 of the exact quotient, that is, the quotient rounded to two decimals. The
  two totals are sums of doubles. Over block records whose counters stay in the range
  where the runtime's numbers hold every integer (over the records with transactions, the
  magnitudes of each counter add up to at most \<open>2^53\<close>), the reply's totals are the exact
  sums of \<^verbatim>\<open>crossLayerCalls\<close> and \<^verbatim>\<open>hyperEVMTxns\<close> over the records with transactions, and
  the reply's percentage is computed from these two. Over no rows the reply has \<^verbatim>\<open>totalTransactions\<close> 0,
  \<^verbatim>\<open>crossLayerPercentage\<close> \<^verbatim>\<open>0\<close> and \<^verbatim>\<open>totalGasUsed\<close> \<^verbatim>\<open>0\<close>.
\<close>

theorem crossLayerPercentage_rounding:
  "(tt \<le> 0 \<longrightarrow> crossLayerPercentage c tt = ''0'')
   \<and> (0 < tt \<and> 0 \<le> c \<and> c \<le> 200000000000 \<longrightarrow>
        (\<exists>n. 0 \<le> n
           \<and> crossLayerPercentage c tt
               = decimalDigits (n div 100) @ ''.'' @ [digitChar (n div 10 mod 10), digitChar (n mod 10)]
           \<and> \<bar>of_int n / 100 - 100 * of_int c / of_int tt\<bar> \<le> (1 / 200 :: rat)))
   \<and> (list_all blockRecord (concat (map (parseBlockData jsonParse) rows))
        \<and> safeTotals (filter activeRecord (concat (map (parseBlockData jsonParse) rows))) \<longrightarrow>
        replyField (api_stats jsonParse (Inr stats) (Inr rows)) ''crossLayerPercentage''
          = Some (JStr (crossLayerPercentage
              (\<Sum>b\<leftarrow>filter activeRecord (concat (map (parseBlockData jsonParse) rows)).
                  numberField b ''crossLayerCalls'')
              (\<Sum>b\<leftarrow>filter activeRecord (concat (map (parseBlockData jsonParse) rows)).
                  numberField b ''hyperEVMTxns'')))
        \<and> replyField (api_stats jsonParse (Inr stats) (Inr rows)) ''totalCrossLayerCalls''
          = Some (JNum (\<Sum>b\<leftarrow>filter activeRecord (concat (map (parseBlockData jsonParse) rows)).
                          numberField b ''crossLayerCalls''))
        \<and> replyField (api_stats jsonParse (Inr stats) (Inr rows)) ''totalTransactions''
          = Some (JNum (\<Sum>b\<leftarrow>filter activeRecord (concat (map (parseBlockData jsonParse) rows)).
                          numberField b ''hyperEVMTxns'')))
   \<and> replyField (api_stats jsonParse (Inr stats) (Inr [])) ''totalTransactions'' = Some (JNum 0)
   \<and> replyField (api_stats jsonParse (Inr stats) (Inr [])) ''crossLayerPercentage'' = Some (JStr ''0'')
   \<and> replyField (api_stats jsonParse (Inr stats) (Inr [])) ''totalGasUsed'' = Some (JStr ''0'')"
proof -
  have z: "crossLayerPercentage c tt = ''0''" if "tt \<le> 0"
    using that by (simp add: crossLayerPercentage_def)
  have r: "\<exists>n. 0 \<le> n
           \<and> crossLayerPercentage c tt
               = decimalDigits (n div 100) @ ''.'' @ [digitChar (n div 10 mod 10), digitChar (n mod 10)]
           \<and> \<bar>of_int n / 100 - 100 * of_int c / of_int tt\<bar> \<le> (1 / 200 :: rat)"
    if "0 < tt \<and> 0 \<le> c \<and> c \<le> 200000000000"
  proof -
    from that crossLayerPercentage_rounded [of tt c] obtain n where
      n: "crossLayerPercentage c tt = fixed2 n" "0 \<le> n"
         "\<bar>of_int n / 100 - 100 * of_int c / of_int tt\<bar> \<le> (1 / 200 :: rat)"
      by blast
    from n(1) fixed2_digits [OF n(2)] n(2,3) show ?thesis by metis
  qed
  from z r api_stats_fields [of jsonParse rows stats] api_stats_no_rows [of jsonParse stats]
  show ?thesis by blast
qed

theorem crossLayerPercentage_rounding_witness:
  "crossLayerPercentage 5 0 = ''0''
   \<and> crossLayerPercentage 203 20000 = ''1.01''
   \<and> (\<exists>n. 0 \<le> n
         \<and> crossLayerPercentage 203 20000
             = decimalDigits (n div 100) @ ''.'' @ [digitChar (n div 10 mod 10), digitChar (n mod 10)]
         \<and> \<bar>of_int n / 100 - 100 * of_int 203 / of_int 20000\<bar> \<le> (1 / 200 :: rat))
   \<and> list_all blockRecord (concat (map (parseBlockData undecodable)
        [JArr [JObj [(''blockNumber'', JNum 1), (''hyperEVMTxns'', JNum 3), (''crossLayerCalls'', JNum 1)],
               JObj [(''blockNumber'', JNum 2), (''hyperEVMTxns'', JNum 0), (''crossLayerCalls'', JNum 5)],
               JObj [(''blockNumber'', JNum 3), (''hyperEVMTxns'', JNum 1)]]]))
   \<and> safeTotals (filter activeRecord (concat (map (parseBlockData undecodable)
        [JArr [JObj [(''blockNumber'', JNum 1), (''hyperEVMTxns'', JNum 3), (''crossLayerCalls'', JNum 1)],
               JObj [(''blockNumber'', JNum 2), (''hyperEVMTxns'', JNum 0), (''crossLayerCalls'', JNum 5)],
               JObj [(''blockNumber'', JNum 3), (''hyperEVMTxns'', JNum 1)]]])))
   \<and> replyField (api_stats undecodable
          (Inr \<lparr>total_records = Some ''1'', first_block = Some ''1'', last_block = Some ''3''\<rparr>)
          (Inr [JArr [JObj [(''blockNumber'', JNum 1), (''hyperEVMTxns'', JNum 3), (''crossLayerCalls'', JNum 1)],
               JObj [(''blockNumber'', JNum 2), (''hyperEVMTxns'', JNum 0), (''crossLayerCalls'', JNum 5)],
               JObj [(''blockNumber'', JNum 3), (''hyperEVMTxns'', JNum 1)]]]))
        ''crossLayerPercentage'' = Some (JStr ''25.00'')"
proof -
  let ?rows = "[JArr [JObj [(''blockNumber'', JNum 1), (''hyperEVMTxns'', JNum 3), (''crossLayerCalls'', JNum 1)],
               JObj [(''blockNumber'', JNum 2), (''hyperEVMTxns'', JNum 0), (''crossLayerCalls'', JNum 5)],
               JObj [(''blockNumber'', JNum 3), (''hyperEVMTxns'', JNum 1)]]]"
  let ?stats = "\<lparr>total_records = Some ''1'', first_block = Some ''1'', last_block = Some ''3''\<rparr>"
  note t = crossLayerPercentage_rounding
  have c1: "crossLayerPercentage 5 0 = ''0''"
    using t [where tt = 0 and c = 5] by simp
  have c2: "crossLayerPercentage 203 20000 = ''1.01''" by code_simp
  have c3: "\<exists>n. 0 \<le> n
         \<and> crossLayerPercentage 203 20000
             = decimalDigits (n div 100) @ ''.'' @ [digitChar (n div 10 mod 10), digitChar (n mod 10)]
         \<and> \<bar>of_int n / 100 - 100 * of_int 203 / of_int 20000\<bar> \<le> (1 / 200 :: rat)"
    using t [where tt = 20000 and c = 203] by simp
  have h: "list_all blockRecord (concat (map (parseBlockData undecodable) ?rows))" by code_simp
  have s: "safeTotals (filter activeRecord (concat (map (parseBlockData undecodable) ?rows)))"
    by code_simp
  have v: "crossLayerPercentage
              (\<Sum>b\<leftarrow>filter activeRecord (concat (map (parseBlockData undecodable) ?rows)).
                  numberField b ''crossLayerCalls'')
              (\<Sum>b\<leftarrow>filter activeRecord (concat (map (parseBlockData undecodable) ?rows)).
                  numberField b ''hyperEVMTxns'') = ''25.00''"
    by code_simp
  have c4: "replyField (api_stats undecodable (Inr ?stats) (Inr ?rows)) ''crossLayerPercentage''
      = Some (JStr ''25.00'')"
    using t [where jsonParse = undecodable and rows = ?rows and stats = ?stats] h s
    unfolding v by blast
  from c1 c2 c3 h s c4 show ?thesis by blast
qed

text \<open>
  The claim as stated fails for large totals. With 965786060203 cross-layer calls in
  27090773077223 transactions the exact percentage lies above 3.565, so rounded to two
  decimals it is 3.57; the doubles give \<^verbatim>\<open>3.56\<close>, which is more than 0.005 away.
\<close>

theorem crossLayerPercentage_misrounds_counterexample:
  "replyField (api_stats undecodable
      (Inr \<lparr>total_records = Some ''1'', first_block = Some ''1'', last_block = Some ''1''\<rparr>)
      (Inr [JObj [(''blockNumber'', JNum 1), (''hyperEVMTxns'', JNum 27090773077223),
                  (''crossLayerCalls'', JNum 965786060203)]]))
     ''crossLayerPercentage'' = Some (JStr ''3.56'')
   \<and> replyField (api_stats undecodable
      (Inr \<lparr>total_records = Some ''1'', first_block = Some ''1'', last_block = Some ''1''\<rparr>)
      (Inr [JObj [(''blockNumber'', JNum 1), (''hyperEVMTxns'', JNum 27090773077223),
                  (''crossLayerCalls'', JNum 965786060203)]]))
     ''totalTransactions'' = Some (JNum 27090773077223)
   \<and> (1 / 200 :: rat) < \<bar>356 / 100 - 100 * 965786060203 / 27090773077223\<bar>
   \<and> \<bar>357 / 100 - 100 * 965786060203 / 27090773077223\<bar> < (1 / 200 :: rat)"
proof -
  have a: "replyField (api_stats undecodable
      (Inr \<lparr>total_records = Some ''1'', first_block = Some ''1'', last_block = Some ''1''\<rparr>)
      (Inr [JObj [(''blockNumber'', JNum 1), (''hyperEVMTxns'', JNum 27090773077223),
                  (''crossLayerCalls'', JNum 965786060203)]]))
     ''crossLayerPercentage'' = Some (JStr ''3.56'')"
    by code_simp
  have b: "replyField (api_stats undecodable
      (Inr \<lparr>total_records = Some ''1'', first_block = Some ''1'', last_block = Some ''1''\<rparr>)
      (Inr [JObj [(''blockNumber'', JNum 1), (''hyperEVMTxns'', JNum 27090773077223),
                  (''crossLayerCalls'', JNum 965786060203)]]))
     ''totalTransactions'' = Some (JNum 27090773077223)"
    by code_simp
  have c: "(1 / 200 :: rat) < \<bar>356 / 100 - 100 * 965786060203 / 27090773077223\<bar>" by simp
  have d: "\<bar>357 / 100 - 100 * 965786060203 / 27090773077223\<bar> < (1 / 200 :: rat)" by simp
  from a b c d show ?thesis by blast
qed

end
